theory Spec2Isabelle
  imports Complex_Main
begin

section \<open>Raceline tracking controller (controller.py)\<close>

text \<open>
  The controller computes on numpy arrays of float64. The embedding takes the vehicle
  state and the track as finite numbers and idealises the arithmetic of the track
  queries and of the speed planner as arithmetic on \<open>real\<close>: no rounding and no
  overflow. The pure-pursuit steering law of the outer layer and the two channels of
  the inner layer are modelled on the values of float64 with their exceptional ones,
  the two infinities and nan: a result too large for float64 becomes an infinity, and
  nan arises and spreads as in IEEE 754; rounding inside the finite range is left out
  there too. A centerline (an array of shape
  (n, 2)) is a list of points; an index is a Python integer, so a negative index counts
  from the end and an index out of range raises IndexError.
\<close>

subsection \<open>Data\<close>

type_synonym point = "real \<times> real"
type_synonym track = "point list"

datatype error = ValueError | IndexError | ZeroDivisionError | AssertionError

text \<open>The vehicle state array \<open>[x, y, steering, velocity, heading]\<close> (indices 0..4).\<close>

record vstate =
  state_x :: real
  state_y :: real
  state_steering :: real
  state_velocity :: real
  state_heading :: real

text \<open>
  The module-level dictionary \<open>controller_state\<close>: string keys, an integer under
  \<open>'last_idx'\<close>, floats under \<open>'velocity_integral'\<close> and \<open>'velocity_prev_error'\<close>.
\<close>

datatype pyval = PyInt int | PyFloat real

type_synonym cstate = "string \<rightharpoonup> pyval"

definition controller_state :: cstate where
  "controller_state =
     [''last_idx'' \<mapsto> PyInt 0,
      ''velocity_integral'' \<mapsto> PyFloat 0,
      ''velocity_prev_error'' \<mapsto> PyFloat 0]"

subsection \<open>numpy primitives\<close>

text \<open>Sequencing of fallible steps: the first raised error ends the evaluation.\<close>

definition bind_res :: "error + 'a \<Rightarrow> ('a \<Rightarrow> error + 'b) \<Rightarrow> error + 'b" where
  "bind_res r f = (case r of Inl e \<Rightarrow> Inl e | Inr v \<Rightarrow> f v)"

text \<open>\<open>a[i]\<close> on an array of length n: valid for \<open>-n \<le> i < n\<close>, IndexError otherwise.\<close>

definition py_get :: "'a list \<Rightarrow> int \<Rightarrow> error + 'a" where
  "py_get xs i =
     (if 0 \<le> i \<and> i < int (length xs) then Inr (xs ! nat i)
      else if - int (length xs) \<le> i \<and> i < 0 then Inr (xs ! nat (int (length xs) + i))
      else Inl IndexError)"

text \<open>
  Division. numpy yields inf or nan with a warning when the divisor is zero; the
  embedding has no such values and makes that case a failure, so that a result
  \<open>Inr\<close> says that no division by zero took place.
\<close>

definition safe_div :: "real \<Rightarrow> real \<Rightarrow> error + real" where
  "safe_div a b = (if b = 0 then Inl ZeroDivisionError else Inr (a / b))"

text \<open>\<open>np.clip(a, lo, hi)\<close> is \<open>minimum(maximum(a, lo), hi)\<close>.\<close>

definition np_clip :: "real \<Rightarrow> real \<Rightarrow> real \<Rightarrow> real" where
  "np_clip a lo hi = min (max a lo) hi"

subsection \<open>float64 values with infinities and nan\<close>

text \<open>
  A float64 is a finite number, plus or minus infinity, or nan. A real result of an
  operation on finite numbers overflows to an infinity when its magnitude reaches
  \<open>2^1024 - 2^970\<close> (the largest float64 plus half a unit in its last place);
  otherwise it is taken as it is. Zero carries no sign here.
\<close>

datatype fval = Fl real | PosInf | NegInf | NaN

definition overflow_threshold :: real where
  "overflow_threshold = 2 ^ 1024 - 2 ^ 970"

definition fl_of :: "real \<Rightarrow> fval" where
  "fl_of r = (if overflow_threshold \<le> r then PosInf
              else if r \<le> - overflow_threshold then NegInf
              else Fl r)"

fun fneg :: "fval \<Rightarrow> fval" where
  "fneg (Fl a) = Fl (- a)"
| "fneg PosInf = NegInf"
| "fneg NegInf = PosInf"
| "fneg NaN = NaN"

fun fadd :: "fval \<Rightarrow> fval \<Rightarrow> fval" where
  "fadd (Fl a) (Fl b) = fl_of (a + b)"
| "fadd (Fl a) PosInf = PosInf"
| "fadd (Fl a) NegInf = NegInf"
| "fadd PosInf (Fl b) = PosInf"
| "fadd PosInf PosInf = PosInf"
| "fadd PosInf NegInf = NaN"
| "fadd NegInf (Fl b) = NegInf"
| "fadd NegInf PosInf = NaN"
| "fadd NegInf NegInf = NegInf"
| "fadd NaN b = NaN"
| "fadd a NaN = NaN"

definition fsub :: "fval \<Rightarrow> fval \<Rightarrow> fval" where
  "fsub a b = fadd a (fneg b)"

fun fmul :: "fval \<Rightarrow> fval \<Rightarrow> fval" where
  "fmul (Fl a) (Fl b) = fl_of (a * b)"
| "fmul (Fl a) PosInf = (if a = 0 then NaN else if 0 < a then PosInf else NegInf)"
| "fmul (Fl a) NegInf = (if a = 0 then NaN else if 0 < a then NegInf else PosInf)"
| "fmul PosInf (Fl b) = (if b = 0 then NaN else if 0 < b then PosInf else NegInf)"
| "fmul NegInf (Fl b) = (if b = 0 then NaN else if 0 < b then NegInf else PosInf)"
| "fmul PosInf PosInf = PosInf"
| "fmul PosInf NegInf = NegInf"
| "fmul NegInf PosInf = NegInf"
| "fmul NegInf NegInf = PosInf"
| "fmul NaN b = NaN"
| "fmul a NaN = NaN"

fun fdiv :: "fval \<Rightarrow> fval \<Rightarrow> fval" where
  "fdiv (Fl a) (Fl b) =
     (if b = 0 then (if a = 0 then NaN else if 0 < a then PosInf else NegInf)
      else fl_of (a / b))"
| "fdiv (Fl a) PosInf = Fl 0"
| "fdiv (Fl a) NegInf = Fl 0"
| "fdiv PosInf (Fl b) = (if 0 \<le> b then PosInf else NegInf)"
| "fdiv NegInf (Fl b) = (if 0 \<le> b then NegInf else PosInf)"
| "fdiv PosInf PosInf = NaN"
| "fdiv PosInf NegInf = NaN"
| "fdiv NegInf PosInf = NaN"
| "fdiv NegInf NegInf = NaN"
| "fdiv NaN b = NaN"
| "fdiv a NaN = NaN"

text \<open>\<open>np.sqrt\<close>, \<open>np.arctan\<close> and \<open>np.sign\<close>.\<close>

fun fsqrt :: "fval \<Rightarrow> fval" where
  "fsqrt (Fl a) = (if a < 0 then NaN else Fl (sqrt a))"
| "fsqrt PosInf = PosInf"
| "fsqrt NegInf = NaN"
| "fsqrt NaN = NaN"

fun farctan :: "fval \<Rightarrow> fval" where
  "farctan (Fl a) = Fl (arctan a)"
| "farctan PosInf = Fl (pi / 2)"
| "farctan NegInf = Fl (- (pi / 2))"
| "farctan NaN = NaN"

fun fsign :: "fval \<Rightarrow> fval" where
  "fsign (Fl a) = Fl (sgn a)"
| "fsign PosInf = Fl 1"
| "fsign NegInf = Fl (- 1)"
| "fsign NaN = NaN"

text \<open>The comparison \<open>a > b\<close> with a finite \<open>b\<close>; it is false on nan.\<close>

fun fgt :: "fval \<Rightarrow> real \<Rightarrow> bool" where
  "fgt (Fl a) b = (b < a)"
| "fgt PosInf b = True"
| "fgt NegInf b = False"
| "fgt NaN b = False"

text \<open>
  \<open>np.clip(a, lo, hi)\<close> with finite bounds: \<open>np.maximum\<close> and \<open>np.minimum\<close> hand a
  nan on, so a nan is not clipped.
\<close>

fun fclip :: "fval \<Rightarrow> real \<Rightarrow> real \<Rightarrow> fval" where
  "fclip (Fl a) lo hi = Fl (np_clip a lo hi)"
| "fclip PosInf lo hi = Fl hi"
| "fclip NegInf lo hi = Fl (min lo hi)"
| "fclip NaN lo hi = NaN"

text \<open>
  Division as in \<open>safe_div\<close>: a finite zero divisor is made a failure, so that a
  result \<open>Inr\<close> says that the divisor was not zero.
\<close>

definition safe_fdiv :: "fval \<Rightarrow> fval \<Rightarrow> error + fval" where
  "safe_fdiv a b = (if b = Fl 0 then Inl ZeroDivisionError else Inr (fdiv a b))"

text \<open>\<open>np.linalg.norm\<close> of a 2-vector and \<open>np.cross\<close> of two 2-vectors.\<close>

definition norm2 :: "point \<Rightarrow> real" where
  "norm2 v = sqrt ((fst v)\<^sup>2 + (snd v)\<^sup>2)"

definition psub :: "point \<Rightarrow> point \<Rightarrow> point" where
  "psub p q = (fst p - fst q, snd p - snd q)"

definition padd :: "point \<Rightarrow> point \<Rightarrow> point" where
  "padd p q = (fst p + fst q, snd p + snd q)"

definition pscale :: "point \<Rightarrow> real \<Rightarrow> point" where
  "pscale p c = (fst p * c, snd p * c)"

definition cross2 :: "point \<Rightarrow> point \<Rightarrow> real" where
  "cross2 v w = fst v * snd w - snd v * fst w"

text \<open>
  \<open>np.argmin\<close> of a one-dimensional array: the index of the minimum and, where the
  minimum occurs several times, the index of its first occurrence; ValueError on an
  empty array.
\<close>

fun argmin_first :: "real list \<Rightarrow> nat" where
  "argmin_first [] = 0"
| "argmin_first [d] = 0"
| "argmin_first (d # ds) = (let j = argmin_first ds in if ds ! j < d then Suc j else 0)"

definition np_argmin :: "real list \<Rightarrow> error + nat" where
  "np_argmin ds = (if ds = [] then Inl ValueError else Inr (argmin_first ds))"

subsection \<open>Track queries\<close>

text \<open>\<open>find_closest_point_on_track(position, track, last_idx)\<close>, lines 20-32.\<close>

definition find_closest_point_on_track ::
  "point \<Rightarrow> track \<Rightarrow> pyval \<Rightarrow> error + (nat \<times> real)" where
  "find_closest_point_on_track position track last_idx =
     (let distances = map (\<lambda>p. norm2 (psub p position)) track
      in bind_res (np_argmin distances) (\<lambda>closest_idx.
           let min_dist = distances ! closest_idx
           in Inr (closest_idx, min_dist)))"

text \<open>
  \<open>find_lookahead_point(position, track, start_idx, lookahead_dist)\<close>, lines 35-58.
  The loop \<open>for _ in range(n_points)\<close> is a recursion on the number of iterations
  left; at 0 the statement after the loop returns. The last argument is a ghost
  counter of the iterations entered so far; it is returned beside the Python result
  and has no influence on it.
\<close>

fun lookahead_loop ::
  "track \<Rightarrow> real \<Rightarrow> nat \<Rightarrow> real \<Rightarrow> int \<Rightarrow> nat \<Rightarrow> error + ((point \<times> int) \<times> nat)" where
  "lookahead_loop track lookahead_dist 0 accumulated current_idx steps =
     bind_res (py_get track current_idx) (\<lambda>p. Inr ((p, current_idx), steps))"
| "lookahead_loop track lookahead_dist (Suc k) accumulated current_idx steps =
     (let next_idx = (current_idx + 1) mod int (length track)
      in bind_res (py_get track next_idx) (\<lambda>pn.
         bind_res (py_get track current_idx) (\<lambda>pc.
           let segment_dist = norm2 (psub pn pc)
           in if accumulated + segment_dist \<ge> lookahead_dist
              then bind_res (safe_div (lookahead_dist - accumulated) (max segment_dist 0.001))
                     (\<lambda>ratio.
                        let ratio = np_clip ratio 0 1;
                            lookahead_point = padd (pscale pc (1 - ratio)) (pscale pn ratio)
                        in Inr ((lookahead_point, next_idx), Suc steps))
              else lookahead_loop track lookahead_dist k
                     (accumulated + segment_dist) next_idx (Suc steps))))"

definition find_lookahead_steps ::
  "point \<Rightarrow> track \<Rightarrow> int \<Rightarrow> real \<Rightarrow> error + ((point \<times> int) \<times> nat)" where
  "find_lookahead_steps position track start_idx lookahead_dist =
     (let n_points = length track;
          accumulated = 0;
          current_idx = start_idx
      in lookahead_loop track lookahead_dist n_points accumulated current_idx 0)"

definition find_lookahead_point ::
  "point \<Rightarrow> track \<Rightarrow> int \<Rightarrow> real \<Rightarrow> error + (point \<times> int)" where
  "find_lookahead_point position track start_idx lookahead_dist =
     bind_res (find_lookahead_steps position track start_idx lookahead_dist)
       (\<lambda>r. Inr (fst r))"

text \<open>
  \<open>calculate_curvature(track, idx, window=5)\<close>, lines 61-86. Python's \<open>%\<close> with
  a positive divisor is the floored remainder (\<open>mod\<close> on \<open>int\<close>) and raises
  ZeroDivisionError on an empty track. \<open>** 1.5\<close> is \<open>powr\<close> on a non-negative base.
\<close>

definition calculate_curvature :: "track \<Rightarrow> int \<Rightarrow> int \<Rightarrow> error + real" where
  "calculate_curvature track idx window =
     (let n_points = int (length track)
      in if n_points = 0 then Inl ZeroDivisionError
         else
           let idx_prev = (idx - window) mod n_points;
               idx_next = (idx + window) mod n_points
           in bind_res (py_get track idx_prev) (\<lambda>p1.
              bind_res (py_get track idx) (\<lambda>p2.
              bind_res (py_get track idx_next) (\<lambda>p3.
                let v1 = psub p2 p1;
                    v2 = psub p3 p2;
                    cross = cross2 v1 v2;
                    denom = (norm2 v1 * norm2 v2) powr 1.5
                in if denom > 0.000001
                   then bind_res (safe_div (2 * cross) denom) (\<lambda>q. Inr \<bar>q\<bar>)
                   else Inr 0))))"

subsection \<open>The outer layer: controller\<close>

text \<open>The track object; only its centerline is read (line 109).\<close>

record racetrack =
  centerline :: track

text \<open>Lines 118-131: the adaptive lookahead distance.\<close>

definition lookahead_distance :: "real \<Rightarrow> real \<Rightarrow> real" where
  "lookahead_distance velocity cross_track_error =
     (let base_lookahead = 8;
          velocity_factor = 0.15;
          lookahead = base_lookahead + velocity_factor * min velocity 30;
          lookahead = (if cross_track_error > 2 then lookahead * 0.8
                       else if cross_track_error > 1 then lookahead * 0.9
                       else lookahead)
      in np_clip lookahead 6 15)"

text \<open>
  Lines 137-144: the vector to the lookahead point in the vehicle frame, and line 147:
  its length \<open>L\<close>. Position, heading and lookahead point are finite; the differences,
  products, sums and squares can overflow.
\<close>

definition pursuit_target :: "real \<Rightarrow> real \<Rightarrow> real \<Rightarrow> point \<Rightarrow> fval \<times> fval" where
  "pursuit_target x y heading lookahead_point =
     (let dx = fsub (Fl (fst lookahead_point)) (Fl x);
          dy = fsub (Fl (snd lookahead_point)) (Fl y);
          cos_h = Fl (cos heading);
          sin_h = Fl (sin heading);
          target_x = fadd (fmul cos_h dx) (fmul sin_h dy);
          target_y = fadd (fmul (fneg sin_h) dx) (fmul cos_h dy)
      in (target_x, target_y))"

definition pursuit_distance :: "fval \<times> fval \<Rightarrow> fval" where
  "pursuit_distance target =
     fsqrt (fadd (fmul (fst target) (fst target)) (fmul (snd target) (snd target)))"

text \<open>
  Lines 146-160: the pure-pursuit steering angle with its cross-track correction, before
  the clip. The cross-track error is the finite distance of the closest-point search.
\<close>

definition pursuit_unclipped ::
  "real \<Rightarrow> real \<Rightarrow> real \<Rightarrow> point \<Rightarrow> real \<Rightarrow> error + fval" where
  "pursuit_unclipped x y heading lookahead_point cross_track_error =
     (let target = pursuit_target x y heading lookahead_point;
          target_y = snd target;
          L = pursuit_distance target
      in if fgt L 0.1
         then let wheelbase = Fl 3.6
              in bind_res (safe_fdiv (fmul (fmul (Fl 2) wheelbase) target_y) (fmul L L))
                   (\<lambda>q.
                      let desired_steering = farctan q
                      in if cross_track_error > 1.5
                         then let error_correction =
                                    fmul (fmul (Fl 0.05) (fsub (Fl cross_track_error) (Fl 1.5)))
                                         (fsign target_y);
                                  error_correction = fclip error_correction (- 0.1) 0.1
                              in Inr (fadd desired_steering error_correction)
                         else Inr desired_steering)
         else Inr (Fl 0))"

text \<open>Lines 137-163: the steering angle clipped to the steering range (line 163).\<close>

definition pure_pursuit_steering ::
  "real \<Rightarrow> real \<Rightarrow> real \<Rightarrow> point \<Rightarrow> real \<Rightarrow> error + fval" where
  "pure_pursuit_steering x y heading lookahead_point cross_track_error =
     bind_res (pursuit_unclipped x y heading lookahead_point cross_track_error)
       (\<lambda>desired_steering. Inr (fclip desired_steering (- 0.9) 0.9))"

text \<open>Lines 169-176: the speed ceiling of the curvature band.\<close>

definition base_speed :: "real \<Rightarrow> real" where
  "base_speed curvature =
     (if curvature > 0.1 then 12
      else if curvature > 0.05 then 18
      else if curvature > 0.02 then 25
      else 35)"

text \<open>Lines 179-182: the reduction when the car is off the track.\<close>

definition offtrack_speed :: "real \<Rightarrow> real \<Rightarrow> real" where
  "offtrack_speed cross_track_error target_velocity =
     (if cross_track_error > 2 then min target_velocity 15
      else if cross_track_error > 1 then target_velocity * 0.85
      else target_velocity)"

text \<open>Lines 166-182: the target velocity as it stands before the rate limit.\<close>

definition target_velocity_planned :: "track \<Rightarrow> int \<Rightarrow> real \<Rightarrow> error + real" where
  "target_velocity_planned track lookahead_idx cross_track_error =
     bind_res (calculate_curvature track lookahead_idx 5) (\<lambda>curvature.
       Inr (offtrack_speed cross_track_error (base_speed curvature)))"

text \<open>Lines 185-189: the rate limit, applied only when the velocity is positive.\<close>

definition rate_limit :: "real \<Rightarrow> real \<Rightarrow> real" where
  "rate_limit velocity target_velocity =
     (if velocity > 0
      then let max_speed_change = 10
           in np_clip target_velocity (velocity - max_speed_change) (velocity + max_speed_change)
      else target_velocity)"

text \<open>
  \<open>controller(state, parameters, racetrack)\<close>, lines 89-191. The dictionary
  \<open>controller_state\<close> is passed in and returned. The write of line 114 happens after
  the closest-point search: when that search raises, the dictionary is as before. The
  result is the array \<open>[desired_steering, target_velocity]\<close> of float64 values.
\<close>

definition controller ::
  "cstate \<Rightarrow> vstate \<Rightarrow> real list \<Rightarrow> racetrack \<Rightarrow> (error + fval list) \<times> cstate" where
  "controller cs state parameters rt =
     (let x = state_x state;
          y = state_y state;
          velocity = state_velocity state;
          heading = state_heading state;
          position = (x, y);
          track = centerline rt;
          last_idx = (case cs ''last_idx'' of Some v \<Rightarrow> v | None \<Rightarrow> PyInt 0)
      in case find_closest_point_on_track position track last_idx of
           Inl e \<Rightarrow> (Inl e, cs)
         | Inr (closest_idx, cross_track_error) \<Rightarrow>
             (let cs' = cs(''last_idx'' \<mapsto> PyInt (int closest_idx));
                  lookahead = lookahead_distance velocity cross_track_error
              in (bind_res
                    (find_lookahead_point position track (int closest_idx) lookahead)
                    (\<lambda>(lookahead_point, lookahead_idx).
                  bind_res
                    (pure_pursuit_steering x y heading lookahead_point cross_track_error)
                    (\<lambda>desired_steering.
                  bind_res
                    (target_velocity_planned track lookahead_idx cross_track_error)
                    (\<lambda>target_velocity.
                  Inr [desired_steering, Fl (rate_limit velocity target_velocity)]))),
                  cs')))"

subsection \<open>The inner layer: lower_controller\<close>

text \<open>
  \<open>lower_controller(state, desired, parameters)\<close>, lines 194-241. \<open>desired\<close> is a
  one-dimensional array of float64 values, whose shape is \<open>(length desired,)\<close>; the
  state is finite.
\<close>

definition lower_controller :: "vstate \<Rightarrow> fval list \<Rightarrow> real list \<Rightarrow> error + fval list" where
  "lower_controller state desired parameters =
     (if length desired \<noteq> 2 then Inl AssertionError
      else
        let current_steering = state_steering state;
            current_velocity = state_velocity state;
            desired_steering = desired ! 0;
            desired_velocity = desired ! 1;
            steering_error = fsub desired_steering (Fl current_steering);
            steering_gain = (if current_velocity < 10 then 2
                             else if current_velocity < 25 then 1.8
                             else 1.5);
            steering_velocity = fmul (Fl steering_gain) steering_error;
            steering_velocity = fclip steering_velocity (- 0.4) 0.4;
            velocity_error = fsub desired_velocity (Fl current_velocity);
            kp = 1.5;
            acceleration = fmul (Fl kp) velocity_error;
            max_accel = 15;
            max_decel = - 15;
            acceleration = fclip acceleration max_decel max_accel
        in Inr [steering_velocity, acceleration])"

subsection \<open>One control tick and a run of ticks\<close>

text \<open>
  The driver calls \<open>controller\<close>, then \<open>lower_controller\<close> on its result
  (test_controller.py, lines 37-40). The vehicle model that produces the next state
  is outside the controller, so a run is given the list of states it goes through;
  an exception ends the run.
\<close>

definition tick ::
  "cstate \<Rightarrow> vstate \<Rightarrow> real list \<Rightarrow> racetrack \<Rightarrow> (error + fval list) \<times> cstate" where
  "tick cs state parameters rt =
     (case controller cs state parameters rt of
        (Inl e, cs') \<Rightarrow> (Inl e, cs')
      | (Inr desired, cs') \<Rightarrow> (lower_controller state desired parameters, cs'))"

fun run_ticks :: "cstate \<Rightarrow> vstate list \<Rightarrow> real list \<Rightarrow> racetrack \<Rightarrow> cstate" where
  "run_ticks cs [] parameters rt = cs"
| "run_ticks cs (state # states) parameters rt =
     (case tick cs state parameters rt of
        (Inl e, cs') \<Rightarrow> cs'
      | (Inr control, cs') \<Rightarrow> run_ticks cs' states parameters rt)"

subsection \<open>Arc length along the cyclic centerline\<close>

text \<open>
  The quantities the statements about \<open>find_lookahead_point\<close> speak of: the length
  of the segment that leaves the point at index \<open>i\<close> (indices taken cyclically), the
  length of the first \<open>k\<close> segments walked from \<open>start\<close>, and the length of the whole
  closed track.
\<close>

definition segment_length :: "track \<Rightarrow> int \<Rightarrow> real" where
  "segment_length track i =
     (let n = int (length track)
      in norm2 (psub (track ! nat ((i + 1) mod n)) (track ! nat (i mod n))))"

primrec arc_length :: "track \<Rightarrow> int \<Rightarrow> nat \<Rightarrow> real" where
  "arc_length track start 0 = 0"
| "arc_length track start (Suc k) =
     segment_length track start + arc_length track (start + 1) k"

definition track_length :: "track \<Rightarrow> real" where
  "track_length track = arc_length track 0 (length track)"

subsection \<open>The two-chord curvature formula\<close>

text \<open>
  The formula of the specification for three points \<open>p1\<close>, \<open>p2\<close>, \<open>p3\<close> with chords
  \<open>v1 = p2 - p1\<close> and \<open>v2 = p3 - p2\<close>: the denominator \<open>(|v1| |v2|)^1.5\<close> and the
  curvature \<open>|2 cross(v1, v2)| / (|v1| |v2|)^1.5\<close>.
\<close>

definition chord_denominator :: "point \<Rightarrow> point \<Rightarrow> point \<Rightarrow> real" where
  "chord_denominator p1 p2 p3 = (norm2 (psub p2 p1) * norm2 (psub p3 p2)) powr 1.5"

definition chord_curvature :: "point \<Rightarrow> point \<Rightarrow> point \<Rightarrow> real" where
  "chord_curvature p1 p2 p3 =
     \<bar>2 * cross2 (psub p2 p1) (psub p3 p2)\<bar> / chord_denominator p1 p2 p3"

subsection \<open>Example inputs\<close>

text \<open>
  A straight centerline of three points 100 m apart, closed by the segment from the
  last point back to the first, and a car at its first point heading along it, once
  at rest and once rolling at 5 m/s.
\<close>

definition straight_track :: racetrack where
  "straight_track = \<lparr>centerline = [(0, 0), (100, 0), (200, 0)]\<rparr>"

definition at_rest :: vstate where
  "at_rest = \<lparr>state_x = 0, state_y = 0, state_steering = 0, state_velocity = 0, state_heading = 0\<rparr>"

definition rolling :: vstate where
  "rolling = \<lparr>state_x = 0, state_y = 0, state_steering = 0, state_velocity = 5, state_heading = 0\<rparr>"


definition corner_track :: racetrack where
  "corner_track = \<lparr>centerline = [(0, 0), (2, 0), (0, 2)]\<rparr>"

definition off_line :: vstate where
  "off_line = \<lparr>state_x = 0, state_y = - 1.5, state_steering = 0, state_velocity = 20,
                state_heading = 0\<rparr>"

definition on_line :: vstate where
  "on_line = \<lparr>state_x = 0, state_y = 0, state_steering = 0, state_velocity = 20,
               state_heading = 0\<rparr>"

text \<open>
  A track of a single point at the origin, and a car at the finite position
  (1e308, 1e308) rolling at 5 m/s.
\<close>

definition point_track :: racetrack where
  "point_track = \<lparr>centerline = [(0, 0)]\<rparr>"

definition far_away :: vstate where
  "far_away = \<lparr>state_x = 10 ^ 308, state_y = 10 ^ 308, state_steering = 0,
                state_velocity = 5, state_heading = 0\<rparr>"

section \<open>Verification\<close>

subsection \<open>Closest point\<close>

lemma argmin_first_less: "ds \<noteq> [] \<Longrightarrow> argmin_first ds < length ds"
  by (induction ds rule: argmin_first.induct) (auto simp: Let_def)



lemma find_closest_eq:
  "track \<noteq> [] \<Longrightarrow>
   find_closest_point_on_track position track hint =
     Inr (argmin_first (map (\<lambda>p. norm2 (psub p position)) track),
          map (\<lambda>p. norm2 (psub p position)) track
            ! argmin_first (map (\<lambda>p. norm2 (psub p position)) track))"
  by (simp add: find_closest_point_on_track_def np_argmin_def bind_res_def Let_def)



subsection \<open>Indexing, segment lengths and arc lengths\<close>

lemma py_get_valid:
  "- int (length xs) \<le> i \<Longrightarrow> i < int (length xs) \<Longrightarrow>
   py_get xs i = Inr (xs ! nat (i mod int (length xs)))"
proof (cases "i < 0")
  case True
  assume a: "- int (length xs) \<le> i" "i < int (length xs)"
  have "i mod int (length xs) = (i + int (length xs)) mod int (length xs)" by simp
  also from True a have "\<dots> = i + int (length xs)" by (intro mod_pos_pos_trivial) simp_all
  finally have "i mod int (length xs) = int (length xs) + i" by simp
  with True a show ?thesis by (simp add: py_get_def Let_def)
next
  case False
  assume a: "- int (length xs) \<le> i" "i < int (length xs)"
  from False a have "i mod int (length xs) = i" by simp
  with False a show ?thesis by (simp add: py_get_def Let_def)
qed

lemma norm2_nonneg: "0 \<le> norm2 v"
  by (simp add: norm2_def)

lemma segment_length_nonneg: "0 \<le> segment_length track i"
  by (simp add: segment_length_def Let_def norm2_nonneg)

lemma segment_length_mod:
  "segment_length track (i mod int (length track)) = segment_length track i"
  by (simp add: segment_length_def Let_def mod_add_left_eq)

lemma segment_length_cong:
  assumes "i mod int (length track) = j mod int (length track)"
  shows "segment_length track i = segment_length track j"
  using assms segment_length_mod by metis

lemma arc_length_cong:
  "i mod int (length track) = j mod int (length track) \<Longrightarrow>
   arc_length track i k = arc_length track j k"
proof (induction k arbitrary: i j)
  case 0 then show ?case by simp
next
  case (Suc k)
  have "(i + 1) mod int (length track) = (j + 1) mod int (length track)"
    using Suc.prems by (metis mod_add_left_eq)
  then have "arc_length track (i + 1) k = arc_length track (j + 1) k" by (rule Suc.IH)
  with segment_length_cong [OF Suc.prems] show ?case by simp
qed

lemma arc_length_nonneg: "0 \<le> arc_length track i k"
  by (induction k arbitrary: i) (simp_all add: segment_length_nonneg)

lemma arc_length_snoc:
  "arc_length track i (Suc k) = arc_length track i k + segment_length track (i + int k)"
proof (induction k arbitrary: i)
  case 0 then show ?case by simp
next
  case (Suc k)
  have "arc_length track i (Suc (Suc k)) = segment_length track i + arc_length track (i + 1) (Suc k)"
    by simp
  also have "\<dots> = segment_length track i + (arc_length track (i + 1) k + segment_length track (i + 1 + int k))"
    by (simp only: Suc.IH)
  finally show ?case by (simp add: add.commute add.left_commute)
qed

lemma arc_length_mono: "j \<le> k \<Longrightarrow> arc_length track i j \<le> arc_length track i k"
proof (induction k)
  case 0 then show ?case by simp
next
  case (Suc k)
  show ?case
  proof (cases "j = Suc k")
    case True then show ?thesis by simp
  next
    case False
    with Suc have "arc_length track i j \<le> arc_length track i k" by simp
    also have "\<dots> \<le> arc_length track i (Suc k)"
      unfolding arc_length_snoc using segment_length_nonneg [of track "i + int k"] by simp
    finally show ?thesis .
  qed
qed

lemma arc_length_shift:
  "arc_length track (i + 1) (length track) = arc_length track i (length track)"
proof -
  let ?n = "length track"
  have "segment_length track i + arc_length track (i + 1) ?n = arc_length track i (Suc ?n)"
    by simp
  also have "\<dots> = arc_length track i ?n + segment_length track (i + int ?n)"
    by (rule arc_length_snoc)
  also have "segment_length track (i + int ?n) = segment_length track i"
    by (rule segment_length_cong) simp
  finally show ?thesis by simp
qed

lemma arc_length_full_nat:
  "arc_length track (int m) (length track) = track_length track"
proof (induction m)
  case 0 then show ?case by (simp add: track_length_def)
next
  case (Suc m)
  have "arc_length track (int m + 1) (length track) = arc_length track (int m) (length track)"
    by (rule arc_length_shift)
  with Suc show ?case by (simp add: add.commute)
qed

lemma arc_length_full:
  assumes "track \<noteq> []"
  shows "arc_length track i (length track) = track_length track"
proof -
  let ?n = "int (length track)"
  from assms have "0 \<le> i mod ?n" by simp
  then have "int (nat (i mod ?n)) mod ?n = i mod ?n" by simp
  then have "arc_length track (int (nat (i mod ?n))) (length track) = arc_length track i (length track)"
    by (rule arc_length_cong)
  then show ?thesis by (simp only: arc_length_full_nat)
qed


subsection \<open>The lookahead walk\<close>

lemma loop_0:
  assumes "- int (length track) \<le> cur" "cur < int (length track)"
  shows "lookahead_loop track ld 0 acc cur st =
           Inr ((track ! nat (cur mod int (length track)), cur), st)"
  by (simp add: py_get_valid [OF assms] bind_res_def)

lemma safe_div_floor:
  "0 < b \<Longrightarrow> safe_div a (max s b) = Inr (a / max s b)"
  by (simp add: safe_div_def max_def)

lemma loop_Suc:
  assumes "track \<noteq> []" "- int (length track) \<le> cur" "cur < int (length track)"
  shows "lookahead_loop track ld (Suc k) acc cur st =
           (if ld \<le> acc + segment_length track cur
            then Inr ((padd (pscale (track ! nat (cur mod int (length track)))
                               (1 - np_clip ((ld - acc) / max (segment_length track cur) 0.001) 0 1))
                            (pscale (track ! nat ((cur + 1) mod int (length track)))
                               (np_clip ((ld - acc) / max (segment_length track cur) 0.001) 0 1)),
                       (cur + 1) mod int (length track)), Suc st)
            else lookahead_loop track ld k (acc + segment_length track cur)
                   ((cur + 1) mod int (length track)) (Suc st))"
proof -
  let ?n = "int (length track)"
  let ?next = "(cur + 1) mod ?n"
  from assms(1) have n: "0 < ?n" by simp
  then have nx: "0 \<le> ?next" "?next < ?n" by simp_all
  then have g1: "py_get track ?next = Inr (track ! nat ?next)"
    using py_get_valid [of track ?next] by simp
  have g2: "py_get track cur = Inr (track ! nat (cur mod ?n))"
    using assms(2,3) by (rule py_get_valid)
  have seg: "norm2 (psub (track ! nat ?next) (track ! nat (cur mod ?n))) = segment_length track cur"
    by (simp add: segment_length_def Let_def)
  show ?thesis
    by (simp add: g1 g2 seg safe_div_floor bind_res_def Let_def)
qed

declare lookahead_loop.simps [simp del]

lemma loop_total:
  assumes "track \<noteq> []"
  shows "- int (length track) \<le> cur \<Longrightarrow> cur < int (length track) \<Longrightarrow>
         \<exists>p i s. lookahead_loop track ld k acc cur st = Inr ((p, i), s)
           \<and> st \<le> s \<and> s \<le> st + k \<and> (0 < k \<longrightarrow> st < s)
           \<and> i = (if s = st then cur else (cur + int (s - st)) mod int (length track))"
proof (induction k arbitrary: acc cur st)
  case 0
  show ?case unfolding loop_0 [OF 0(1,2)] by simp
next
  case (Suc k)
  let ?n = "int (length track)"
  let ?next = "(cur + 1) mod ?n"
  note step = loop_Suc [OF assms Suc.prems, of ld k acc st]
  from assms have n: "0 < ?n" by simp
  show ?case
  proof (cases "ld \<le> acc + segment_length track cur")
    case True
    let ?r = "np_clip ((ld - acc) / max (segment_length track cur) 0.001) 0 1"
    let ?p = "padd (pscale (track ! nat (cur mod ?n)) (1 - ?r))
                   (pscale (track ! nat ?next) ?r)"
    have "lookahead_loop track ld (Suc k) acc cur st = Inr ((?p, ?next), Suc st)"
      by (simp only: step True if_True)
    then show ?thesis
      by (intro exI [of _ ?p] exI [of _ ?next] exI [of _ "Suc st"]) simp
  next
    case False
    have "- ?n \<le> ?next" "?next < ?n" using n by (simp_all add: order_trans [of _ 0])
    from Suc.IH [OF this, of "acc + segment_length track cur" "Suc st"]
    obtain p i s where r: "lookahead_loop track ld k (acc + segment_length track cur) ?next (Suc st)
                           = Inr ((p, i), s)"
      and b: "Suc st \<le> s" "s \<le> Suc st + k"
      and i: "i = (if s = Suc st then ?next else (?next + int (s - Suc st)) mod ?n)"
      by (elim exE conjE)
    have i': "i = (cur + int (s - st)) mod ?n"
    proof (cases "s = Suc st")
      case True
      then have "int (s - st) = 1" by simp
      moreover from i True have "i = ?next" by simp
      ultimately show ?thesis by simp
    next
      case False
      with i have "i = (?next + int (s - Suc st)) mod ?n" by simp
      also have "\<dots> = (cur + 1 + int (s - Suc st)) mod ?n" by (simp add: mod_add_left_eq)
      also from b have "cur + 1 + int (s - Suc st) = cur + int (s - st)" by simp
      finally show ?thesis .
    qed
    have "lookahead_loop track ld (Suc k) acc cur st = Inr ((p, i), s)"
      by (simp only: step False if_False r)
    moreover from b have "st \<le> s" "s \<le> st + Suc k" "st < s" "s \<noteq> st" by simp_all
    ultimately show ?thesis using i'
      by (intro exI [of _ p] exI [of _ i] exI [of _ s]) simp
  qed
qed


lemma loop_reach:
  assumes "track \<noteq> []"
  shows "- int (length track) \<le> cur \<Longrightarrow> cur < int (length track) \<Longrightarrow>
         lookahead_loop track ld k acc cur st = Inr ((p, i), s) \<Longrightarrow>
         1 \<le> j \<Longrightarrow> j \<le> k \<Longrightarrow> ld \<le> acc + arc_length track cur j \<Longrightarrow>
         ld \<le> acc + arc_length track cur (s - st)"
proof (induction k arbitrary: acc cur st j)
  case 0
  then show ?case by simp
next
  case (Suc k)
  let ?n = "int (length track)"
  let ?next = "(cur + 1) mod ?n"
  let ?seg = "segment_length track cur"
  note step = loop_Suc [OF assms Suc.prems(1,2), of ld k acc st]
  from assms have n: "0 < ?n" by simp
  have v: "- ?n \<le> ?next" "?next < ?n" using n by (simp_all add: order_trans [of _ 0])
  show ?case
  proof (cases "ld \<le> acc + ?seg")
    case True
    from Suc.prems(3) have "s = Suc st" using True by (simp add: step)
    with True show ?thesis by simp
  next
    case False
    from Suc.prems(3)
    have r: "lookahead_loop track ld k (acc + ?seg) ?next (Suc st) = Inr ((p, i), s)"
      unfolding step using False by simp
    from loop_total [OF assms v, of ld k "acc + ?seg" "Suc st"] r have b: "Suc st \<le> s" by auto
    from False Suc.prems(4,6) have "j \<noteq> 1" by auto
    with Suc.prems(4) obtain j' where j': "j = Suc j'" "1 \<le> j'" by (cases j) auto
    have c: "\<And>m. arc_length track ?next m = arc_length track (cur + 1) m"
      by (rule arc_length_cong) simp
    from Suc.prems(6) j' have "ld \<le> acc + ?seg + arc_length track ?next j'" by (simp add: c)
    with Suc.IH [OF v r j'(2)] Suc.prems(5) j'
    have "ld \<le> acc + ?seg + arc_length track ?next (s - Suc st)" by simp
    moreover from b have "s - st = Suc (s - Suc st)" by simp
    ultimately show ?thesis by (simp add: c)
  qed
qed

lemma loop_mono:
  assumes "track \<noteq> []" "d1 \<le> d2"
  shows "- int (length track) \<le> cur \<Longrightarrow> cur < int (length track) \<Longrightarrow>
         lookahead_loop track d1 k acc cur st = Inr ((p1, i1), s1) \<Longrightarrow>
         lookahead_loop track d2 k acc cur st = Inr ((p2, i2), s2) \<Longrightarrow> s1 \<le> s2"
proof (induction k arbitrary: acc cur st)
  case 0
  from 0(3) have "s1 = st" unfolding loop_0 [OF 0(1,2)] by simp
  moreover from 0(4) have "s2 = st" unfolding loop_0 [OF 0(1,2)] by simp
  ultimately show ?case by simp
next
  case (Suc k)
  let ?n = "int (length track)"
  let ?next = "(cur + 1) mod ?n"
  let ?seg = "segment_length track cur"
  note step1 = loop_Suc [OF assms(1) Suc.prems(1,2), of d1 k acc st]
  note step2 = loop_Suc [OF assms(1) Suc.prems(1,2), of d2 k acc st]
  from assms have n: "0 < ?n" by simp
  have v: "- ?n \<le> ?next" "?next < ?n" using n by (simp_all add: order_trans [of _ 0])
  show ?case
  proof (cases "d2 \<le> acc + ?seg")
    case True
    with assms(2) have t1: "d1 \<le> acc + ?seg" by simp
    from Suc.prems(3) have "s1 = Suc st" unfolding step1 using t1 by simp
    moreover from Suc.prems(4) have "s2 = Suc st" unfolding step2 using True by simp
    ultimately show ?thesis by simp
  next
    case False
    from Suc.prems(4)
    have r2: "lookahead_loop track d2 k (acc + ?seg) ?next (Suc st) = Inr ((p2, i2), s2)"
      unfolding step2 using False by simp
    from loop_total [OF assms(1) v, of d2 k "acc + ?seg" "Suc st"] r2 have b: "Suc st \<le> s2" by auto
    show ?thesis
    proof (cases "d1 \<le> acc + ?seg")
      case True
      from Suc.prems(3) have "s1 = Suc st" unfolding step1 using True by simp
      with b show ?thesis by simp
    next
      case False
      from Suc.prems(3)
      have r1: "lookahead_loop track d1 k (acc + ?seg) ?next (Suc st) = Inr ((p1, i1), s1)"
        unfolding step1 using False by simp
      from Suc.IH [OF v r1 r2] show ?thesis .
    qed
  qed
qed

lemma find_lookahead_point_steps:
  "find_lookahead_steps position track start_idx ld = Inr ((p, i), s) \<Longrightarrow>
   find_lookahead_point position track start_idx ld = Inr (p, i)"
  by (simp add: find_lookahead_point_def bind_res_def)


lemma sqrt4: "sqrt 4 = 2"
  using real_sqrt_abs [of 2] by simp

lemma tl3: "track_length [(0, 0), (1, 0), (2, 0)] = 4"
  by (simp add: track_length_def eval_nat_numeral segment_length_def norm2_def psub_def sqrt4)



text \<open>
  C8. On a non-empty track, from a fixed start index the track can be read at, take
  two lookahead distances \<open>d1 \<le> d2\<close>, both within the length of the whole track.
  \<open>find_lookahead_point\<close> returns for each the index that lies \<open>s1\<close>, respectively
  \<open>s2\<close>, segments forward of the start along the cycle, with \<open>1 \<le> s1 \<le> s2 \<le> n\<close>:
  the arc length accumulated up to the index returned for \<open>d2\<close> is at least the one
  accumulated up to the index returned for \<open>d1\<close>, and each reaches its lookahead
  distance.
\<close>

theorem lookahead_monotone:
  assumes "track \<noteq> []"
    and "- int (length track) \<le> start_idx" and "start_idx < int (length track)"
    and "d1 \<le> d2" and "d2 \<le> track_length track"
  shows "\<exists>p1 i1 s1 p2 i2 s2.
           find_lookahead_steps position track start_idx d1 = Inr ((p1, i1), s1)
         \<and> find_lookahead_steps position track start_idx d2 = Inr ((p2, i2), s2)
         \<and> find_lookahead_point position track start_idx d1 = Inr (p1, i1)
         \<and> find_lookahead_point position track start_idx d2 = Inr (p2, i2)
         \<and> i1 = (start_idx + int s1) mod int (length track)
         \<and> i2 = (start_idx + int s2) mod int (length track)
         \<and> 1 \<le> s1 \<and> s1 \<le> s2 \<and> s2 \<le> length track
         \<and> arc_length track start_idx s1 \<le> arc_length track start_idx s2
         \<and> d1 \<le> arc_length track start_idx s1
         \<and> d2 \<le> arc_length track start_idx s2"
proof -
  let ?n = "length track"
  from assms(1) have n: "0 < ?n" by simp
  from loop_total [OF assms(1,2,3), of d1 ?n 0 0]
  obtain p1 i1 s1 where r1: "lookahead_loop track d1 ?n 0 start_idx 0 = Inr ((p1, i1), s1)"
    and b1: "s1 \<le> 0 + ?n" "0 < ?n \<longrightarrow> 0 < s1"
    and j1: "i1 = (if s1 = 0 then start_idx else (start_idx + int (s1 - 0)) mod int ?n)"
    by (elim exE conjE)
  from loop_total [OF assms(1,2,3), of d2 ?n 0 0]
  obtain p2 i2 s2 where r2: "lookahead_loop track d2 ?n 0 start_idx 0 = Inr ((p2, i2), s2)"
    and b2: "s2 \<le> 0 + ?n" "0 < ?n \<longrightarrow> 0 < s2"
    and j2: "i2 = (if s2 = 0 then start_idx else (start_idx + int (s2 - 0)) mod int ?n)"
    by (elim exE conjE)
  from b1 b2 n have pos: "1 \<le> s1" "1 \<le> s2" "s2 \<le> ?n" by simp_all
  from j1 pos have k1: "i1 = (start_idx + int s1) mod int ?n" by simp
  from j2 pos have k2: "i2 = (start_idx + int s2) mod int ?n" by simp
  have mono: "s1 \<le> s2" using assms(1,4,2,3) r1 r2 by (rule loop_mono)
  then have arc: "arc_length track start_idx s1 \<le> arc_length track start_idx s2"
    by (rule arc_length_mono)
  have full: "arc_length track start_idx ?n = track_length track"
    using assms(1) by (rule arc_length_full)
  have one: "(1::nat) \<le> ?n" using assms(1) by (cases track) simp_all
  from assms(4,5) full have "d1 \<le> 0 + arc_length track start_idx ?n" by simp
  with loop_reach [OF assms(1,2,3) r1 one order_refl]
  have reach1: "d1 \<le> arc_length track start_idx s1" by simp
  from assms(5) full have "d2 \<le> 0 + arc_length track start_idx ?n" by simp
  with loop_reach [OF assms(1,2,3) r2 one order_refl]
  have reach2: "d2 \<le> arc_length track start_idx s2" by simp
  have e1: "find_lookahead_steps position track start_idx d1 = Inr ((p1, i1), s1)"
    using r1 by (simp add: find_lookahead_steps_def)
  have e2: "find_lookahead_steps position track start_idx d2 = Inr ((p2, i2), s2)"
    using r2 by (simp add: find_lookahead_steps_def)
  note f1 = find_lookahead_point_steps [OF e1]
  note f2 = find_lookahead_point_steps [OF e2]
  from e1 e2 f1 f2 k1 k2 pos mono arc reach1 reach2 show ?thesis by blast
qed

theorem lookahead_monotone_witness:
  "[(0, 0), (1, 0), (2, 0)] \<noteq> ([] :: track)
   \<and> - int (length [(0, 0), (1, 0), (2, 0) :: point]) \<le> 0
   \<and> 0 < int (length [(0, 0), (1, 0), (2, 0) :: point])
   \<and> (1 / 2 :: real) \<le> 3 / 2
   \<and> 3 / 2 \<le> track_length [(0, 0), (1, 0), (2, 0)]
   \<and> (\<exists>p1 i1 s1 p2 i2 s2.
           find_lookahead_steps (7, 7) [(0, 0), (1, 0), (2, 0)] 0 (1 / 2) = Inr ((p1, i1), s1)
         \<and> find_lookahead_steps (7, 7) [(0, 0), (1, 0), (2, 0)] 0 (3 / 2) = Inr ((p2, i2), s2)
         \<and> find_lookahead_point (7, 7) [(0, 0), (1, 0), (2, 0)] 0 (1 / 2) = Inr (p1, i1)
         \<and> find_lookahead_point (7, 7) [(0, 0), (1, 0), (2, 0)] 0 (3 / 2) = Inr (p2, i2)
         \<and> i1 = (0 + int s1) mod int (length [(0, 0), (1, 0), (2, 0) :: point])
         \<and> i2 = (0 + int s2) mod int (length [(0, 0), (1, 0), (2, 0) :: point])
         \<and> 1 \<le> s1 \<and> s1 \<le> s2 \<and> s2 \<le> length [(0, 0), (1, 0), (2, 0) :: point]
         \<and> arc_length [(0, 0), (1, 0), (2, 0)] 0 s1 \<le> arc_length [(0, 0), (1, 0), (2, 0)] 0 s2
         \<and> 1 / 2 \<le> arc_length [(0, 0), (1, 0), (2, 0)] 0 s1
         \<and> 3 / 2 \<le> arc_length [(0, 0), (1, 0), (2, 0)] 0 s2)
   \<and> find_lookahead_steps (7, 7) [(0, 0), (1, 0), (2, 0)] 0 (1 / 2) = Inr (((1 / 2, 0), 1), 1)
   \<and> find_lookahead_steps (7, 7) [(0, 0), (1, 0), (2, 0)] 0 (3 / 2) = Inr (((3 / 2, 0), 2), 2)"
proof -
  have h: "3 / 2 \<le> track_length [(0, 0), (1, 0), (2, 0)]" by (simp add: tl3)
  have a: "find_lookahead_steps (7, 7) [(0, 0), (1, 0), (2, 0)] 0 (1 / 2) = Inr (((1 / 2, 0), 1), 1)"
    by (simp add: find_lookahead_steps_def lookahead_loop.simps
        eval_nat_numeral py_get_def bind_res_def norm2_def psub_def padd_def pscale_def
        safe_div_def np_clip_def Let_def sqrt4)
  have b: "find_lookahead_steps (7, 7) [(0, 0), (1, 0), (2, 0)] 0 (3 / 2) = Inr (((3 / 2, 0), 2), 2)"
    by (simp add: find_lookahead_steps_def lookahead_loop.simps
        eval_nat_numeral py_get_def bind_res_def norm2_def psub_def padd_def pscale_def
        safe_div_def np_clip_def Let_def sqrt4)
  have c1: "[(0, 0), (1, 0), (2, 0)] \<noteq> ([] :: track)" by simp
  have c2: "- int (length [(0, 0), (1, 0), (2, 0) :: point]) \<le> 0" by simp
  have c3: "0 < int (length [(0, 0), (1, 0), (2, 0) :: point])" by simp
  have c4: "(1 / 2 :: real) \<le> 3 / 2" by simp
  from lookahead_monotone [of "[(0, 0), (1, 0), (2, 0)]" 0 "1 / 2" "3 / 2" "(7, 7)", OF c1 c2 c3 c4 h]
  have E: "\<exists>p1 i1 s1 p2 i2 s2.
           find_lookahead_steps (7, 7) [(0, 0), (1, 0), (2, 0)] 0 (1 / 2) = Inr ((p1, i1), s1)
         \<and> find_lookahead_steps (7, 7) [(0, 0), (1, 0), (2, 0)] 0 (3 / 2) = Inr ((p2, i2), s2)
         \<and> find_lookahead_point (7, 7) [(0, 0), (1, 0), (2, 0)] 0 (1 / 2) = Inr (p1, i1)
         \<and> find_lookahead_point (7, 7) [(0, 0), (1, 0), (2, 0)] 0 (3 / 2) = Inr (p2, i2)
         \<and> i1 = (0 + int s1) mod int (length [(0, 0), (1, 0), (2, 0) :: point])
         \<and> i2 = (0 + int s2) mod int (length [(0, 0), (1, 0), (2, 0) :: point])
         \<and> 1 \<le> s1 \<and> s1 \<le> s2 \<and> s2 \<le> length [(0, 0), (1, 0), (2, 0) :: point]
         \<and> arc_length [(0, 0), (1, 0), (2, 0)] 0 s1 \<le> arc_length [(0, 0), (1, 0), (2, 0)] 0 s2
         \<and> 1 / 2 \<le> arc_length [(0, 0), (1, 0), (2, 0)] 0 s1
         \<and> 3 / 2 \<le> arc_length [(0, 0), (1, 0), (2, 0)] 0 s2"
    .
  show ?thesis by (intro conjI) (rule c1 c2 c3 c4 h E a b)+
qed

subsection \<open>Steering, curvature and the controller pipeline\<close>

lemma np_clip_range: "lo \<le> hi \<Longrightarrow> lo \<le> np_clip a lo hi \<and> np_clip a lo hi \<le> hi"
  by (simp add: np_clip_def min_def max_def)

lemma find_lookahead_point_total:
  assumes "track \<noteq> []" "- int (length track) \<le> start_idx" "start_idx < int (length track)"
  shows "\<exists>p i. find_lookahead_point position track start_idx ld = Inr (p, i)
           \<and> 0 \<le> i \<and> i < int (length track)"
proof -
  let ?n = "length track"
  from assms(1) have n: "0 < ?n" by simp
  from loop_total [OF assms, of ld ?n 0 0]
  obtain p i s where r: "lookahead_loop track ld ?n 0 start_idx 0 = Inr ((p, i), s)"
    and b: "0 < ?n \<longrightarrow> 0 < s"
    and j: "i = (if s = 0 then start_idx else (start_idx + int (s - 0)) mod int ?n)"
    by (elim exE conjE)
  from b n j have "i = (start_idx + int s) mod int ?n" by simp
  with n have "0 \<le> i" "i < int ?n" by simp_all
  moreover from r have "find_lookahead_point position track start_idx ld = Inr (p, i)"
    by (intro find_lookahead_point_steps [of _ _ _ _ _ _ s]) (simp add: find_lookahead_steps_def)
  ultimately show ?thesis by blast
qed

lemma overflow_threshold_bounds:
  "10 ^ 308 < overflow_threshold" "overflow_threshold \<le> 2 * 10 ^ 308"
  by (simp_all add: overflow_threshold_def)

lemma overflow_threshold_pos: "0 < overflow_threshold"
  using overflow_threshold_bounds(1) by (rule less_trans [rotated]) simp

lemma fl_of_Fl: "\<bar>r\<bar> \<le> 10 ^ 308 \<Longrightarrow> fl_of r = Fl r"
  using overflow_threshold_bounds(1) by (auto simp: fl_of_def)

lemma fl_of_PosInf: "2 * 10 ^ 308 \<le> r \<Longrightarrow> fl_of r = PosInf"
  using overflow_threshold_bounds(2) by (auto simp: fl_of_def)

lemma fl_of_NegInf: "r \<le> - (2 * 10 ^ 308) \<Longrightarrow> fl_of r = NegInf"
  using overflow_threshold_bounds(2) overflow_threshold_pos by (auto simp: fl_of_def)

lemma fl_of_not_NaN: "fl_of r \<noteq> NaN"
  by (simp add: fl_of_def)

lemma fl_of_Fl_iff: "fl_of r = Fl a \<Longrightarrow> a = r"
  by (simp add: fl_of_def split: if_splits)

lemma fl_of_nonneg: "0 \<le> r \<Longrightarrow> fl_of r = Fl r \<or> fl_of r = PosInf"
  using overflow_threshold_pos by (auto simp: fl_of_def)

lemma fclip_range:
  assumes "lo \<le> hi"
  shows "(v = NaN \<and> fclip v lo hi = NaN)
         \<or> (v \<noteq> NaN \<and> (\<exists>r. fclip v lo hi = Fl r \<and> lo \<le> r \<and> r \<le> hi))"
  using assms np_clip_range [OF assms] by (cases v) auto

lemma fsub_Fl_NaN: "fsub d (Fl c) = NaN \<longleftrightarrow> d = NaN"
  by (cases d) (simp_all add: fsub_def fl_of_not_NaN)

lemma fmul_pos_NaN: "0 < g \<Longrightarrow> fmul (Fl g) e = NaN \<longleftrightarrow> e = NaN"
  by (cases e) (simp_all add: fl_of_not_NaN)

lemma fgt_square:
  assumes "fgt L b" "0 \<le> b"
  shows "fmul L L \<noteq> Fl 0 \<and> fmul L L \<noteq> NaN \<and> fmul L L \<noteq> NegInf"
proof (cases L)
  case (Fl l)
  with assms have "0 < l * l" by simp
  then show ?thesis using Fl fl_of_nonneg [of "l * l"] by auto
qed (use assms in simp_all)

lemma fdiv_Fl_not_NaN:
  assumes "d \<noteq> Fl 0" "d \<noteq> NaN"
  shows "fdiv (Fl n) d \<noteq> NaN"
  using assms by (cases d) (simp_all add: fl_of_not_NaN)

lemma farctan_NaN: "farctan q = NaN \<longleftrightarrow> q = NaN"
  by (cases q) simp_all

lemma fadd_Fl_NaN: "fadd d (Fl e) = NaN \<longleftrightarrow> d = NaN"
  by (cases d) (simp_all add: fl_of_not_NaN)

lemma pursuit_unclipped_total:
  "\<exists>z. pursuit_unclipped x y heading lp cte = Inr z"
proof -
  let ?L = "pursuit_distance (pursuit_target x y heading lp)"
  show ?thesis
  proof (cases "fgt ?L 0.1")
    case True
    from fgt_square [OF True] have "fmul ?L ?L \<noteq> Fl 0" by simp
    then show ?thesis
      using True by (simp add: pursuit_unclipped_def Let_def safe_fdiv_def bind_res_def)
  next
    case False
    then show ?thesis by (simp add: pursuit_unclipped_def Let_def)
  qed
qed

lemma pure_pursuit_steering_total:
  "\<exists>ds. pure_pursuit_steering x y heading lp cte = Inr ds
         \<and> (ds = NaN \<or> (\<exists>r. ds = Fl r \<and> - 0.9 \<le> r \<and> r \<le> 0.9))"
proof -
  obtain z where z: "pursuit_unclipped x y heading lp cte = Inr z"
    using pursuit_unclipped_total by blast
  have "pure_pursuit_steering x y heading lp cte = Inr (fclip z (- 0.9) 0.9)"
    by (simp add: pure_pursuit_steering_def z bind_res_def)
  moreover have "fclip z (- 0.9) 0.9 = NaN
       \<or> (\<exists>r. fclip z (- 0.9) 0.9 = Fl r \<and> - 0.9 \<le> r \<and> r \<le> 0.9)"
    using fclip_range [of "- 0.9" "0.9" z] by auto
  ultimately show ?thesis by auto
qed

lemma py_get_mod:
  assumes "track \<noteq> []"
  shows "py_get track (a mod int (length track)) = Inr (track ! nat (a mod int (length track)))"
proof -
  from assms have "0 < int (length track)" by simp
  then have "- int (length track) \<le> a mod int (length track)"
    "a mod int (length track) < int (length track)"
    by (simp_all add: order_trans [of _ 0])
  from py_get_valid [OF this] show ?thesis by simp
qed

lemma calculate_curvature_eq:
  assumes "track \<noteq> []" "- int (length track) \<le> idx" "idx < int (length track)"
  shows "calculate_curvature track idx window =
           Inr (let p1 = track ! nat ((idx - window) mod int (length track));
                    p2 = track ! nat (idx mod int (length track));
                    p3 = track ! nat ((idx + window) mod int (length track))
                in if chord_denominator p1 p2 p3 \<le> 0.000001 then 0
                   else chord_curvature p1 p2 p3)"
proof -
  let ?n = "int (length track)"
  let ?p1 = "track ! nat ((idx - window) mod ?n)"
  let ?p2 = "track ! nat (idx mod ?n)"
  let ?p3 = "track ! nat ((idx + window) mod ?n)"
  let ?d = "chord_denominator ?p1 ?p2 ?p3"
  let ?c = "cross2 (psub ?p2 ?p1) (psub ?p3 ?p2)"
  from assms(1) have n: "?n \<noteq> 0" by simp
  note g1 = py_get_mod [OF assms(1), of "idx - window"]
  note g2 = py_get_valid [OF assms(2,3)]
  note g3 = py_get_mod [OF assms(1), of "idx + window"]
  have unf: "calculate_curvature track idx window =
               (if ?d > 0.000001 then bind_res (safe_div (2 * ?c) ?d) (\<lambda>q. Inr \<bar>q\<bar>) else Inr 0)"
    unfolding calculate_curvature_def Let_def chord_denominator_def
    by (simp only: n if_False g1 g2 g3 bind_res_def sum.case)
  show ?thesis
  proof (cases "?d > 0.000001")
    case True
    then have pos: "0 < ?d" by simp
    then have "safe_div (2 * ?c) ?d = Inr (2 * ?c / ?d)" by (simp add: safe_div_def)
    moreover from pos have "\<bar>2 * ?c / ?d\<bar> = \<bar>2 * ?c\<bar> / ?d" by (simp add: abs_divide)
    ultimately have "calculate_curvature track idx window = Inr (chord_curvature ?p1 ?p2 ?p3)"
      using True by (simp only: unf if_True bind_res_def sum.case chord_curvature_def)
    with True show ?thesis by (simp add: Let_def)
  next
    case False
    then have "calculate_curvature track idx window = Inr 0" by (simp only: unf if_False)
    with False show ?thesis by (simp add: Let_def)
  qed
qed

lemma calculate_curvature_total:
  assumes "track \<noteq> []" "- int (length track) \<le> idx" "idx < int (length track)"
  shows "\<exists>c. calculate_curvature track idx window = Inr c"
  using calculate_curvature_eq [OF assms] by simp

lemma target_velocity_planned_eq:
  "calculate_curvature track li 5 = Inr c \<Longrightarrow>
   target_velocity_planned track li cte = Inr (offtrack_speed cte (base_speed c))"
  by (simp add: target_velocity_planned_def bind_res_def)

lemma controller_char:
  assumes "centerline rt \<noteq> []"
  shows "\<exists>ci cte lp li ds c.
           (\<forall>h. find_closest_point_on_track (state_x st, state_y st) (centerline rt) h = Inr (ci, cte))
         \<and> ci < length (centerline rt)
         \<and> find_lookahead_point (state_x st, state_y st) (centerline rt) (int ci)
               (lookahead_distance (state_velocity st) cte) = Inr (lp, li)
         \<and> pure_pursuit_steering (state_x st) (state_y st) (state_heading st) lp cte = Inr ds
         \<and> (ds = NaN \<or> (\<exists>r. ds = Fl r \<and> - 0.9 \<le> r \<and> r \<le> 0.9))
         \<and> calculate_curvature (centerline rt) li 5 = Inr c
         \<and> controller cs st parameters rt =
             (Inr [ds, Fl (rate_limit (state_velocity st) (offtrack_speed cte (base_speed c)))],
              cs(''last_idx'' \<mapsto> PyInt (int ci)))"
proof -
  let ?tr = "centerline rt"
  let ?pos = "(state_x st, state_y st)"
  let ?ds = "map (\<lambda>p. norm2 (psub p ?pos)) ?tr"
  let ?ci = "argmin_first ?ds"
  let ?cte = "?ds ! ?ci"
  let ?ld = "lookahead_distance (state_velocity st) ?cte"
  from assms have ne: "?ds \<noteq> []" by simp
  have lt: "?ci < length ?tr" using argmin_first_less [OF ne] by simp
  have fc: "\<And>h. find_closest_point_on_track ?pos ?tr h = Inr (?ci, ?cte)"
    using assms by (rule find_closest_eq)
  from lt have v: "- int (length ?tr) \<le> int ?ci" "int ?ci < int (length ?tr)" by simp_all
  from find_lookahead_point_total [OF assms v, of ?pos ?ld]
  obtain lp li where fl: "find_lookahead_point ?pos ?tr (int ?ci) ?ld = Inr (lp, li)"
    and li: "0 \<le> li" "li < int (length ?tr)" by (elim exE conjE)
  from pure_pursuit_steering_total [of "state_x st" "state_y st" "state_heading st" lp ?cte]
  obtain ds where pp: "pure_pursuit_steering (state_x st) (state_y st) (state_heading st) lp ?cte = Inr ds"
    and r: "ds = NaN \<or> (\<exists>r. ds = Fl r \<and> - 0.9 \<le> r \<and> r \<le> 0.9)" by (elim exE conjE)
  from li have v2: "- int (length ?tr) \<le> li" by simp
  from calculate_curvature_total [OF assms v2 li(2), of 5]
  obtain c where cc: "calculate_curvature ?tr li 5 = Inr c" by (elim exE)
  note tv = target_velocity_planned_eq [OF cc, of ?cte]
  have "controller cs st parameters rt =
          (Inr [ds, Fl (rate_limit (state_velocity st) (offtrack_speed ?cte (base_speed c)))],
           cs(''last_idx'' \<mapsto> PyInt (int ?ci)))"
    unfolding controller_def Let_def
    by (simp only: fc fl pp tv sum.case prod.case bind_res_def)
  with fc lt fl pp r cc show ?thesis by blast
qed

subsection \<open>Session state\<close>

lemma controller_empty:
  "centerline rt = [] \<Longrightarrow> controller cs st parameters rt = (Inl ValueError, cs)"
  by (simp add: controller_def find_closest_point_on_track_def np_argmin_def bind_res_def Let_def)

lemma controller_fst_indep:
  "fst (controller cs st parameters rt) = fst (controller cs' st parameters rt)"
proof (cases "centerline rt = []")
  case True
  then show ?thesis by (simp add: controller_empty)
next
  case False
  from controller_char [OF False, of st cs parameters]
  obtain ci cte lp li ds c where
    fc: "\<forall>h. find_closest_point_on_track (state_x st, state_y st) (centerline rt) h = Inr (ci, cte)"
    and fl: "find_lookahead_point (state_x st, state_y st) (centerline rt) (int ci)
               (lookahead_distance (state_velocity st) cte) = Inr (lp, li)"
    and pp: "pure_pursuit_steering (state_x st) (state_y st) (state_heading st) lp cte = Inr ds"
    and cc: "calculate_curvature (centerline rt) li 5 = Inr c"
    and c1: "controller cs st parameters rt =
             (Inr [ds, Fl (rate_limit (state_velocity st) (offtrack_speed cte (base_speed c)))],
              cs(''last_idx'' \<mapsto> PyInt (int ci)))"
    by (elim exE conjE)
  from controller_char [OF False, of st cs' parameters]
  obtain ci' cte' lp' li' ds' c' where
    fc': "\<forall>h. find_closest_point_on_track (state_x st, state_y st) (centerline rt) h = Inr (ci', cte')"
    and fl': "find_lookahead_point (state_x st, state_y st) (centerline rt) (int ci')
               (lookahead_distance (state_velocity st) cte') = Inr (lp', li')"
    and pp': "pure_pursuit_steering (state_x st) (state_y st) (state_heading st) lp' cte' = Inr ds'"
    and cc': "calculate_curvature (centerline rt) li' 5 = Inr c'"
    and c2: "controller cs' st parameters rt =
             (Inr [ds', Fl (rate_limit (state_velocity st) (offtrack_speed cte' (base_speed c')))],
              cs'(''last_idx'' \<mapsto> PyInt (int ci')))"
    by (elim exE conjE)
  from fc fc' have e1: "ci' = ci" "cte' = cte" by simp_all
  from fl fl' e1 have e2: "lp' = lp" "li' = li" by simp_all
  from pp pp' e1 e2 have e3: "ds' = ds" by simp
  from cc cc' e2 have e4: "c' = c" by simp
  show ?thesis by (simp add: c1 c2 e1 e3 e4)
qed

lemma controller_snd:
  "snd (controller cs st parameters rt) = cs
   \<or> (\<exists>i. snd (controller cs st parameters rt) = cs(''last_idx'' \<mapsto> PyInt i))"
proof (cases "centerline rt = []")
  case True
  then show ?thesis by (simp add: controller_empty)
next
  case False
  from controller_char [OF False, of st cs parameters]
  obtain ci ds tv where "controller cs st parameters rt =
      (Inr [ds, tv], cs(''last_idx'' \<mapsto> PyInt (int ci)))"
    by blast
  then show ?thesis by auto
qed

lemma controller_frame:
  assumes "k \<noteq> ''last_idx''"
  shows "snd (controller cs st parameters rt) k = cs k"
  using controller_snd [of cs st parameters rt] assms by auto

lemma tick_snd: "snd (tick cs st parameters rt) = snd (controller cs st parameters rt)"
  by (simp add: tick_def split: prod.splits sum.splits)

lemma tick_fst_indep: "fst (tick cs st parameters rt) = fst (tick cs' st parameters rt)"
  using controller_fst_indep [of cs st parameters rt cs']
  by (cases "controller cs st parameters rt"; cases "controller cs' st parameters rt")
     (auto simp: tick_def split: sum.splits)

lemma run_ticks_frame:
  assumes "k \<noteq> ''last_idx''"
  shows "run_ticks cs states parameters rt k = cs k"
proof (induction states arbitrary: cs)
  case Nil
  show ?case by simp
next
  case (Cons st states)
  obtain r cs' where t: "tick cs st parameters rt = (r, cs')" by (cases "tick cs st parameters rt")
  then have "cs' = snd (controller cs st parameters rt)" using tick_snd [of cs st parameters rt] by simp
  then have f: "cs' k = cs k" using controller_frame [OF assms] by simp
  show ?case
  proof (cases r)
    case (Inl e)
    with t f show ?thesis by simp
  next
    case (Inr control)
    with t f Cons.IH [of cs'] show ?thesis by simp
  qed
qed

subsection \<open>The controller on the straight track\<close>

lemma sqrt_numerals: "sqrt 64 = 8" "sqrt 10000 = 100" "sqrt 40000 = 200"
  using real_sqrt_abs [of 8] real_sqrt_abs [of 100] real_sqrt_abs [of 200] by simp_all

lemma straight_closest:
  "find_closest_point_on_track (0, 0) [(0, 0), (100, 0), (200, 0)] h = Inr (0, 0)"
  by (simp add: find_closest_point_on_track_def np_argmin_def bind_res_def norm2_def psub_def
        Let_def sqrt_numerals)

lemma straight_lookahead:
  assumes "0 \<le> ld" "ld \<le> 100"
  shows "find_lookahead_point (0, 0) [(0, 0), (100, 0), (200, 0)] 0 ld = Inr ((ld, 0), 1)"
  using assms
  by (simp add: find_lookahead_point_def find_lookahead_steps_def lookahead_loop.simps
        eval_nat_numeral py_get_def bind_res_def norm2_def psub_def padd_def pscale_def
        safe_div_def np_clip_def Let_def sqrt_numerals min_def max_def)

lemma fl_of_num: "fl_of 0 = Fl 0" "fl_of (36 / 5) = Fl (36 / 5)"
  by (simp_all add: fl_of_Fl)

lemma straight_target:
  assumes "0 \<le> a" "a \<le> 100"
  shows "pursuit_target 0 0 0 (a, 0) = (Fl a, Fl 0)"
proof -
  from assms have "\<bar>a\<bar> \<le> 10 ^ 308" by simp
  then have "fl_of a = Fl a" by (rule fl_of_Fl)
  then show ?thesis by (simp add: pursuit_target_def fsub_def Let_def fl_of_num)
qed

lemma straight_distance:
  assumes "0 \<le> a" "a \<le> 100"
  shows "fl_of (a * a) = Fl (a * a)" "pursuit_distance (Fl a, Fl 0) = Fl a"
proof -
  from assms have "a * a \<le> 100 * 100" by (intro mult_mono) simp_all
  moreover from assms have "0 \<le> a * a" by simp
  ultimately have "\<bar>a * a\<bar> \<le> 10 ^ 308" by simp
  then show sq: "fl_of (a * a) = Fl (a * a)" by (rule fl_of_Fl)
  from sq assms show "pursuit_distance (Fl a, Fl 0) = Fl a"
    by (simp add: pursuit_distance_def fl_of_num)
qed

lemma straight_steering:
  assumes "0 \<le> a" "a \<le> 100"
  shows "pure_pursuit_steering 0 0 0 (a, 0) 0 = Inr (Fl 0)"
proof -
  have "pursuit_unclipped 0 0 0 (a, 0) 0 = Inr (Fl 0)"
    by (simp add: pursuit_unclipped_def straight_target [OF assms] straight_distance [OF assms]
          Let_def safe_fdiv_def bind_res_def fl_of_num)
  then show ?thesis
    by (simp add: pure_pursuit_steering_def bind_res_def np_clip_def)
qed

lemma straight_curvature: "calculate_curvature [(0, 0), (100, 0), (200, 0)] 1 5 = Inr 0"
proof -
  have "calculate_curvature [(0, 0), (100, 0), (200, 0)] 1 5 =
          Inr (let p1 = [(0, 0), (100, 0), (200, 0)] ! nat ((1 - 5) mod int (length [(0, 0), (100, 0), (200, 0) :: point]));
                   p2 = [(0, 0), (100, 0), (200, 0)] ! nat (1 mod int (length [(0, 0), (100, 0), (200, 0) :: point]));
                   p3 = [(0, 0), (100, 0), (200, 0)] ! nat ((1 + 5) mod int (length [(0, 0), (100, 0), (200, 0) :: point]))
               in if chord_denominator p1 p2 p3 \<le> 0.000001 then 0
                  else chord_curvature p1 p2 p3)"
    by (rule calculate_curvature_eq) simp_all
  then show ?thesis
    by (simp add: Let_def chord_curvature_def cross2_def psub_def eval_nat_numeral)
qed

lemma controller_at_rest:
  "controller cs at_rest parameters straight_track
     = (Inr [Fl 0, Fl 35], cs(''last_idx'' \<mapsto> PyInt 0))"
  by (simp add: controller_def at_rest_def straight_track_def Let_def straight_closest
        lookahead_distance_def np_clip_def straight_lookahead straight_steering
        target_velocity_planned_def straight_curvature base_speed_def offtrack_speed_def
        rate_limit_def bind_res_def)

lemma controller_rolling:
  "controller cs rolling parameters straight_track
     = (Inr [Fl 0, Fl 15], cs(''last_idx'' \<mapsto> PyInt 0))"
  by (simp add: controller_def rolling_def straight_track_def Let_def straight_closest
        lookahead_distance_def np_clip_def straight_lookahead straight_steering
        target_velocity_planned_def straight_curvature base_speed_def offtrack_speed_def
        rate_limit_def bind_res_def)

subsection \<open>Outputs of the two layers\<close>

lemma lower_controller_pair:
  assumes "length desired = 2"
  shows "\<exists>sr a. lower_controller st desired parameters = Inr [sr, a]
           \<and> ((desired ! 0 = NaN \<and> sr = NaN)
                \<or> (desired ! 0 \<noteq> NaN \<and> (\<exists>r. sr = Fl r \<and> - 0.4 \<le> r \<and> r \<le> 0.4)))"
proof -
  let ?g = "if state_velocity st < 10 then 2 else if state_velocity st < 25 then 1.8 else 1.5 :: real"
  let ?e = "fmul (Fl ?g) (fsub (desired ! 0) (Fl (state_steering st)))"
  have g: "0 < ?g" by simp
  have n: "?e = NaN \<longleftrightarrow> desired ! 0 = NaN"
    using fmul_pos_NaN [OF g] by (simp only: fsub_Fl_NaN)
  have "\<exists>a. lower_controller st desired parameters = Inr [fclip ?e (- 0.4) 0.4, a]"
    using assms by (simp add: lower_controller_def Let_def)
  moreover have "(?e = NaN \<and> fclip ?e (- 0.4) 0.4 = NaN)
         \<or> (?e \<noteq> NaN \<and> (\<exists>r. fclip ?e (- 0.4) 0.4 = Fl r \<and> - 0.4 \<le> r \<and> r \<le> 0.4))"
    by (rule fclip_range) simp
  ultimately show ?thesis using n by blast
qed

lemma rate_limit_band:
  "0 < v \<Longrightarrow> \<bar>rate_limit v tv - v\<bar> \<le> 10"
  using np_clip_range [of "v - 10" "v + 10" tv] by (simp add: rate_limit_def Let_def abs_le_iff)

lemma pursuit_target_finite:
  assumes "\<bar>fst lp - x\<bar> \<le> 10 ^ 150" "\<bar>snd lp - y\<bar> \<le> 10 ^ 150"
  shows "\<exists>tx ty. pursuit_target x y heading lp = (Fl tx, Fl ty) \<and> \<bar>ty\<bar> \<le> 2 * 10 ^ 150"
proof -
  let ?dx = "fst lp - x"
  let ?dy = "snd lp - y"
  let ?c = "cos heading"
  let ?s = "sin heading"
  have small: "\<And>r :: real. \<bar>r\<bar> \<le> 2 * 10 ^ 150 \<Longrightarrow> \<bar>r\<bar> \<le> 10 ^ 308"
    by (erule order_trans) simp
  have c: "\<bar>?c\<bar> \<le> 1" and s: "\<bar>?s\<bar> \<le> 1" by simp_all
  have m: "\<And>u v :: real. \<bar>u\<bar> \<le> 1 \<Longrightarrow> \<bar>v\<bar> \<le> 10 ^ 150 \<Longrightarrow> \<bar>u * v\<bar> \<le> 10 ^ 150"
  proof -
    fix u v :: real assume "\<bar>u\<bar> \<le> 1" "\<bar>v\<bar> \<le> 10 ^ 150"
    then have "\<bar>u\<bar> * \<bar>v\<bar> \<le> 1 * 10 ^ 150" by (intro mult_mono) simp_all
    then show "\<bar>u * v\<bar> \<le> 10 ^ 150" by (simp add: abs_mult)
  qed
  have b1: "\<bar>?c * ?dx\<bar> \<le> 10 ^ 150" using c assms(1) by (rule m)
  have b2: "\<bar>?s * ?dy\<bar> \<le> 10 ^ 150" using s assms(2) by (rule m)
  have b3: "\<bar>- ?s * ?dx\<bar> \<le> 10 ^ 150" using s assms(1) m [of "- ?s" ?dx] by simp
  have b4: "\<bar>?c * ?dy\<bar> \<le> 10 ^ 150" using c assms(2) by (rule m)
  from b1 b2 have b5: "\<bar>?c * ?dx + ?s * ?dy\<bar> \<le> 2 * 10 ^ 150" by linarith
  from b3 b4 have b6: "\<bar>- ?s * ?dx + ?c * ?dy\<bar> \<le> 2 * 10 ^ 150" by linarith
  have f1: "fl_of (fst lp + - x) = Fl ?dx"
    using fl_of_Fl [of ?dx] small [of ?dx] assms(1) by simp
  have f2: "fl_of (snd lp + - y) = Fl ?dy"
    using fl_of_Fl [of ?dy] small [of ?dy] assms(2) by simp
  have f3: "fl_of (?c * ?dx) = Fl (?c * ?dx)" using b1 small by (intro fl_of_Fl) simp
  have f4: "fl_of (?s * ?dy) = Fl (?s * ?dy)" using b2 small by (intro fl_of_Fl) simp
  have f5: "fl_of (- ?s * ?dx) = Fl (- ?s * ?dx)" using b3 small by (intro fl_of_Fl) simp
  have f6: "fl_of (?c * ?dy) = Fl (?c * ?dy)" using b4 small by (intro fl_of_Fl) simp
  have f7: "fl_of (?c * ?dx + ?s * ?dy) = Fl (?c * ?dx + ?s * ?dy)"
    using b5 small by (intro fl_of_Fl) simp
  have f8: "fl_of (- ?s * ?dx + ?c * ?dy) = Fl (- ?s * ?dx + ?c * ?dy)"
    using b6 small by (intro fl_of_Fl) simp
  have "pursuit_target x y heading lp
          = (Fl (?c * ?dx + ?s * ?dy), Fl (- ?s * ?dx + ?c * ?dy))"
    unfolding pursuit_target_def Let_def fsub_def fneg.simps fadd.simps fmul.simps
    by (simp only: f1 f2 f3 f4 f5 f6 f7 f8 fadd.simps fmul.simps)
  with b6 show ?thesis by blast
qed

lemma fclip_Fl: "v \<noteq> NaN \<Longrightarrow> \<exists>w. fclip v lo hi = Fl w"
  by (cases v) simp_all

lemma numerator_Fl:
  assumes "\<bar>ty\<bar> \<le> 2 * 10 ^ 150"
  shows "fmul (fmul (Fl 2) (Fl 3.6)) (Fl ty) = Fl (36 * ty / 5)"
proof -
  from assms have "\<bar>36 * ty / 5\<bar> \<le> 10 ^ 308" by simp
  then have "fl_of (36 * ty / 5) = Fl (36 * ty / 5)" by (rule fl_of_Fl)
  then show ?thesis by (simp add: fl_of_num)
qed

lemma correction_Fl:
  assumes "1.5 < cte" "cte \<le> 10 ^ 300"
  shows "\<exists>w. fclip (fmul (fmul (Fl 0.05) (fsub (Fl cte) (Fl 1.5))) (fsign (Fl ty))) lo hi = Fl w"
proof -
  from assms have "\<bar>cte + - (3 / 2)\<bar> \<le> 10 ^ 308" by simp
  then have e1: "fl_of (cte + - (3 / 2)) = Fl (cte + - (3 / 2))" by (rule fl_of_Fl)
  from assms have "\<bar>(cte + - (3 / 2)) / 20\<bar> \<le> 10 ^ 308" by simp
  then have e2: "fl_of ((cte + - (3 / 2)) / 20) = Fl ((cte + - (3 / 2)) / 20)"
    by (rule fl_of_Fl)
  have "fmul (Fl 0.05) (fsub (Fl cte) (Fl 1.5)) = Fl ((cte + - (3 / 2)) / 20)"
    using e1 e2 by (simp add: fsub_def)
  then have "fmul (fmul (Fl 0.05) (fsub (Fl cte) (Fl 1.5))) (fsign (Fl ty)) \<noteq> NaN"
    by (simp add: fl_of_not_NaN)
  then show ?thesis by (rule fclip_Fl)
qed

lemma pure_pursuit_steering_finite:
  assumes "\<bar>fst lp - x\<bar> \<le> 10 ^ 150" "\<bar>snd lp - y\<bar> \<le> 10 ^ 150" "cte \<le> 10 ^ 300"
  shows "\<exists>r. pure_pursuit_steering x y heading lp cte = Inr (Fl r) \<and> - 0.9 \<le> r \<and> r \<le> 0.9"
proof -
  from pursuit_target_finite [OF assms(1,2), of heading]
  obtain tx ty where t: "pursuit_target x y heading lp = (Fl tx, Fl ty)"
    and ty: "\<bar>ty\<bar> \<le> 2 * 10 ^ 150" by blast
  let ?L = "pursuit_distance (Fl tx, Fl ty)"
  let ?ec = "fclip (fmul (fmul (Fl 0.05) (fsub (Fl cte) (Fl 1.5))) (fsign (Fl ty))) (- 0.1) 0.1"
  have u: "pursuit_unclipped x y heading lp cte =
     (if fgt ?L 0.1
      then bind_res (safe_fdiv (fmul (fmul (Fl 2) (Fl 3.6)) (Fl ty)) (fmul ?L ?L))
             (\<lambda>q. if cte > 1.5 then Inr (fadd (farctan q) ?ec) else Inr (farctan q))
      else Inr (Fl 0))"
    unfolding pursuit_unclipped_def Let_def t by (simp only: snd_conv)
  have "\<exists>z. pursuit_unclipped x y heading lp cte = Inr z \<and> z \<noteq> NaN"
  proof (cases "fgt ?L 0.1")
    case False
    then have "pursuit_unclipped x y heading lp cte = Inr (Fl 0)" by (simp only: u if_False)
    then show ?thesis by simp
  next
    case True
    from fgt_square [OF True] have d: "fmul ?L ?L \<noteq> Fl 0" "fmul ?L ?L \<noteq> NaN" by simp_all
    note n = numerator_Fl [OF ty]
    let ?q = "fdiv (Fl (36 * ty / 5)) (fmul ?L ?L)"
    from d have q: "farctan ?q \<noteq> NaN" by (simp only: farctan_NaN fdiv_Fl_not_NaN not_False_eq_True)
    have v: "pursuit_unclipped x y heading lp cte =
               (if cte > 1.5 then Inr (fadd (farctan ?q) ?ec) else Inr (farctan ?q))"
      using d(1) by (simp only: u True if_True n safe_fdiv_def if_False bind_res_def sum.case)
    show ?thesis
    proof (cases "cte > 1.5")
      case False
      then have "pursuit_unclipped x y heading lp cte = Inr (farctan ?q)" by (simp only: v if_False)
      with q show ?thesis by blast
    next
      case c: True
      from correction_Fl [OF c assms(3), of ty "- 0.1" "0.1"] obtain w where w: "?ec = Fl w" ..
      have "fadd (farctan ?q) (Fl w) \<noteq> NaN" using q by (simp only: fadd_Fl_NaN not_False_eq_True)
      moreover have "pursuit_unclipped x y heading lp cte = Inr (fadd (farctan ?q) (Fl w))"
        using c by (simp only: v if_True w)
      ultimately show ?thesis by blast
    qed
  qed
  then obtain z where z: "pursuit_unclipped x y heading lp cte = Inr z" and nz: "z \<noteq> NaN"
    by blast
  have "pure_pursuit_steering x y heading lp cte = Inr (fclip z (- 0.9) 0.9)"
    by (simp add: pure_pursuit_steering_def z bind_res_def)
  moreover have "\<exists>r. fclip z (- 0.9) 0.9 = Fl r \<and> - 0.9 \<le> r \<and> r \<le> 0.9"
    using fclip_range [of "- 0.9" "0.9" z] nz by auto
  ultimately show ?thesis by auto
qed

subsection \<open>The controller far away from a one-point track\<close>

lemma norm2_ge_fst: "\<bar>fst v\<bar> \<le> norm2 v"
proof -
  have "\<bar>fst v\<bar> \<le> sqrt (\<bar>fst v\<bar>\<^sup>2 + (snd v)\<^sup>2)" by (rule real_sqrt_sum_squares_ge1)
  then show ?thesis by (simp add: norm2_def)
qed

lemma far_cross_track_error: "4 < norm2 (psub (0, 0) (10 ^ 308, 10 ^ 308))"
proof -
  have "(4 :: real) < \<bar>fst (psub (0, 0) (10 ^ 308, 10 ^ 308))\<bar>" by (simp add: psub_def)
  also have "\<dots> \<le> norm2 (psub (0, 0) (10 ^ 308, 10 ^ 308))" by (rule norm2_ge_fst)
  finally show ?thesis .
qed

lemma far_closest:
  "find_closest_point_on_track (10 ^ 308, 10 ^ 308) [(0, 0)] h
     = Inr (0, norm2 (psub (0, 0) (10 ^ 308, 10 ^ 308)))"
  by (simp add: find_closest_point_on_track_def np_argmin_def bind_res_def Let_def)

lemma far_lookahead_distance: "4 < cte \<Longrightarrow> lookahead_distance 5 cte = 7"
  by (simp add: lookahead_distance_def np_clip_def Let_def)

lemma point_lookahead:
  "0 < ld \<Longrightarrow> find_lookahead_point pos [(0, 0)] 0 ld = Inr ((0, 0), 0)"
  by (simp add: find_lookahead_point_def find_lookahead_steps_def lookahead_loop.simps
        py_get_def bind_res_def norm2_def psub_def Let_def)

lemma point_curvature: "calculate_curvature [(0, 0)] 0 5 = Inr 0"
  by (simp add: calculate_curvature_def py_get_def bind_res_def norm2_def psub_def Let_def)

lemma far_target:
  "pursuit_target (10 ^ 308) (10 ^ 308) 0 (0, 0) = (Fl (- (10 ^ 308)), Fl (- (10 ^ 308)))"
proof -
  have "fl_of (- (10 ^ 308)) = Fl (- (10 ^ 308))" by (rule fl_of_Fl) simp
  then show ?thesis by (simp add: pursuit_target_def fsub_def Let_def fl_of_num)
qed

lemma far_distance:
  "pursuit_distance (Fl (- (10 ^ 308)), Fl (- (10 ^ 308))) = PosInf"
proof -
  have "fl_of (- (10 ^ 308) * - (10 ^ 308)) = PosInf" by (rule fl_of_PosInf) simp
  then show ?thesis by (simp add: pursuit_distance_def)
qed

lemma far_numerator:
  "fmul (fmul (Fl 2) (Fl 3.6)) (Fl (- (10 ^ 308))) = NegInf"
proof -
  have "fl_of (36 / 5 * - (10 ^ 308)) = NegInf" by (rule fl_of_NegInf) simp
  then show ?thesis by (simp add: fl_of_num)
qed

lemma far_steering:
  "pure_pursuit_steering (10 ^ 308) (10 ^ 308) 0 (0, 0) cte = Inr NaN"
proof -
  have "pursuit_unclipped (10 ^ 308) (10 ^ 308) 0 (0, 0) cte = Inr NaN"
    unfolding pursuit_unclipped_def Let_def far_target snd_conv far_distance far_numerator
    by (simp add: safe_fdiv_def bind_res_def)
  then show ?thesis by (simp add: pure_pursuit_steering_def bind_res_def)
qed

lemma controller_far_away:
  "controller cs far_away parameters point_track
     = (Inr [NaN, Fl 15], cs(''last_idx'' \<mapsto> PyInt 0))"
proof -
  note c = far_cross_track_error
  have l: "lookahead_distance 5 (norm2 (psub (0, 0) (10 ^ 308, 10 ^ 308))) = 7"
    using c by (rule far_lookahead_distance)
  have o: "offtrack_speed (norm2 (psub (0, 0) (10 ^ 308, 10 ^ 308))) (base_speed 0) = 15"
    using c by (simp add: offtrack_speed_def base_speed_def)
  have r: "rate_limit 5 15 = 15" by (simp add: rate_limit_def np_clip_def Let_def)
  show ?thesis
    unfolding controller_def Let_def
    by (simp only: far_away_def point_track_def vstate.simps racetrack.simps far_closest
          sum.case prod.case l of_nat_0 point_lookahead [of 7, simplified] far_steering
          target_velocity_planned_def point_curvature bind_res_def o r)
qed

lemma lower_controller_far_away:
  "lower_controller far_away [NaN, Fl 15] parameters = Inr [NaN, Fl 15]"
  by (simp add: lower_controller_def far_away_def Let_def fsub_def fl_of_Fl np_clip_def)

subsection \<open>Properties of the outputs\<close>

text \<open>
  C2, as the code has it. For every vehicle state whose current velocity is positive and
  every non-empty track, the controller returns a pair whose desired velocity differs
  from the current velocity by at most 10 m/s. (Line 185 applies the rate limit only
  under \<open>velocity > 0\<close>.)
\<close>

theorem desired_velocity_rate_limited:
  assumes "centerline rt \<noteq> []" and "0 < state_velocity st"
  shows "\<exists>ds dv. fst (controller cs st parameters rt) = Inr [ds, Fl dv]
           \<and> \<bar>dv - state_velocity st\<bar> \<le> 10"
proof -
  from controller_char [OF assms(1), of st cs parameters]
  obtain ds tv where "fst (controller cs st parameters rt)
      = Inr [ds, Fl (rate_limit (state_velocity st) tv)]" by force
  with rate_limit_band [OF assms(2), of tv] show ?thesis by blast
qed

theorem desired_velocity_rate_limited_witness:
  "centerline straight_track \<noteq> [] \<and> 0 < state_velocity rolling
   \<and> (\<exists>ds dv. fst (controller controller_state rolling [] straight_track) = Inr [ds, Fl dv]
           \<and> \<bar>dv - state_velocity rolling\<bar> \<le> 10)
   \<and> fst (controller controller_state rolling [] straight_track) = Inr [Fl 0, Fl 15]"
proof -
  have h1: "centerline straight_track \<noteq> []" by (simp add: straight_track_def)
  have h2: "0 < state_velocity rolling" by (simp add: rolling_def)
  have e: "\<exists>ds dv. fst (controller controller_state rolling [] straight_track) = Inr [ds, Fl dv]
           \<and> \<bar>dv - state_velocity rolling\<bar> \<le> 10"
    using h1 h2 by (rule desired_velocity_rate_limited)
  have c: "fst (controller controller_state rolling [] straight_track) = Inr [Fl 0, Fl 15]"
    by (simp add: controller_rolling)
  show ?thesis by (intro conjI) (rule h1 h2 e c)+
qed

text \<open>
  A car at rest (velocity 0) at the first point of a straight three-point track: the
  controller returns the desired velocity 35, which is 35 m/s away from the current one.
\<close>

theorem desired_velocity_at_rest_counterexample:
  "centerline straight_track \<noteq> []
   \<and> fst (controller controller_state at_rest [] straight_track) = Inr [Fl 0, Fl 35]
   \<and> state_velocity at_rest = 0
   \<and> \<not> \<bar>35 - state_velocity at_rest\<bar> \<le> 10"
  by (simp add: controller_at_rest) (simp add: straight_track_def at_rest_def)

text \<open>
  C3. For every vehicle state and every non-empty centerline the controller returns a
  pair \<open>[desired_steering, desired_velocity]\<close> and raises nothing. Its divisions cannot
  divide by zero: the segment length is floored at 0.001, the curvature denominator is
  divided by only when it exceeds 1e-6, the pure-pursuit quotient is taken only when
  \<open>L > 0.1\<close>, and otherwise the steering is 0.
\<close>

theorem controller_total:
  assumes "centerline rt \<noteq> []"
  shows "(\<exists>ds dv. fst (controller cs st parameters rt) = Inr [ds, dv])
       \<and> (\<forall>a s. safe_div a (max s 0.001) = Inr (a / max s 0.001))
       \<and> (\<forall>a d. 0.000001 < d \<longrightarrow> safe_div a d = Inr (a / d))
       \<and> (\<forall>a L. fgt L 0.1 \<longrightarrow> safe_fdiv a (fmul L L) = Inr (fdiv a (fmul L L)))
       \<and> (\<forall>x y heading lp cte.
            \<not> fgt (pursuit_distance (pursuit_target x y heading lp)) 0.1
            \<longrightarrow> pure_pursuit_steering x y heading lp cte = Inr (Fl 0))"
proof -
  from controller_char [OF assms, of st cs parameters]
  have "\<exists>ds dv. fst (controller cs st parameters rt) = Inr [ds, dv]" by force
  moreover have "\<forall>a s. safe_div a (max s 0.001) = Inr (a / max s 0.001)"
    by (simp add: safe_div_floor)
  moreover have "\<forall>a d. 0.000001 < d \<longrightarrow> safe_div a d = Inr (a / d)"
    by (simp add: safe_div_def)
  moreover have "\<forall>a L. fgt L 0.1 \<longrightarrow> safe_fdiv a (fmul L L) = Inr (fdiv a (fmul L L))"
  proof (intro allI impI)
    fix a L assume "fgt L 0.1"
    from fgt_square [OF this] show "safe_fdiv a (fmul L L) = Inr (fdiv a (fmul L L))"
      by (simp add: safe_fdiv_def)
  qed
  moreover have "\<forall>x y heading lp cte.
            \<not> fgt (pursuit_distance (pursuit_target x y heading lp)) 0.1
            \<longrightarrow> pure_pursuit_steering x y heading lp cte = Inr (Fl 0)"
    by (simp add: pure_pursuit_steering_def pursuit_unclipped_def Let_def bind_res_def np_clip_def)
  ultimately show ?thesis by blast
qed

theorem controller_total_witness:
  "centerline straight_track \<noteq> []
   \<and> (\<exists>ds dv. fst (controller controller_state at_rest [] straight_track) = Inr [ds, dv])
   \<and> safe_div 8 (max 100 0.001) = Inr (8 / max 100 0.001)
   \<and> (0.000001 :: real) < 1000000 \<and> safe_div 0 1000000 = Inr (0 / 1000000)
   \<and> fgt (Fl 8) 0.1 \<and> safe_fdiv (Fl 0) (fmul (Fl 8) (Fl 8)) = Inr (fdiv (Fl 0) (fmul (Fl 8) (Fl 8)))
   \<and> \<not> fgt (pursuit_distance (pursuit_target 0 0 0 (0, 0))) 0.1
   \<and> pure_pursuit_steering 0 0 0 (0, 0) 0 = Inr (Fl 0)"
proof -
  have h: "centerline straight_track \<noteq> []" by (simp add: straight_track_def)
  note t = controller_total [OF h, of controller_state at_rest "[]"]
  have n: "\<not> fgt (pursuit_distance (pursuit_target 0 0 0 (0, 0))) 0.1"
    using straight_target [of 0] straight_distance(2) [of 0] by simp
  have g: "fgt (Fl 8) 0.1" by simp
  have s: "(0.000001 :: real) < 1000000" by simp
  from t have e1: "\<exists>ds dv. fst (controller controller_state at_rest [] straight_track) = Inr [ds, dv]"
    by (rule conjunct1)
  from t have e2: "safe_div 8 (max 100 0.001) = Inr (8 / max 100 0.001)" by blast
  from t s have e3: "safe_div 0 1000000 = Inr (0 / 1000000)" by blast
  from t g have e4: "safe_fdiv (Fl 0) (fmul (Fl 8) (Fl 8)) = Inr (fdiv (Fl 0) (fmul (Fl 8) (Fl 8)))"
    by blast
  from t n have e5: "pure_pursuit_steering 0 0 0 (0, 0) 0 = Inr (Fl 0)" by blast
  show ?thesis by (intro conjI) (rule h e1 e2 s e3 g e4 n e5)+
qed

text \<open>
  C6, as the code has it. On every non-empty track the controller returns a pair whose
  desired steering is nan or lies in [-0.9, 0.9]; it lies in [-0.9, 0.9] whenever the
  lookahead point is within 1e150 m of the vehicle in each coordinate and the
  cross-track error is at most 1e300, where no product of the pure-pursuit law can
  overflow. On every state and every \<open>desired\<close> of shape (2,) whose steering entry is
  not nan the lower controller returns a pair whose steering rate lies in [-0.4, 0.4];
  a nan steering entry gives a nan steering rate, since \<open>np.clip\<close> hands nan on.
\<close>

theorem steering_outputs_clamped:
  "(centerline rt \<noteq> [] \<longrightarrow>
      (\<exists>ds dv. fst (controller cs st parameters rt) = Inr [ds, dv]
         \<and> (ds = NaN \<or> (\<exists>r. ds = Fl r \<and> - 0.9 \<le> r \<and> r \<le> 0.9))))
   \<and> (\<forall>ci cte lp li.
        find_closest_point_on_track (state_x st, state_y st) (centerline rt) h = Inr (ci, cte)
        \<and> find_lookahead_point (state_x st, state_y st) (centerline rt) (int ci)
             (lookahead_distance (state_velocity st) cte) = Inr (lp, li)
        \<and> \<bar>fst lp - state_x st\<bar> \<le> 10 ^ 150 \<and> \<bar>snd lp - state_y st\<bar> \<le> 10 ^ 150
        \<and> cte \<le> 10 ^ 300
        \<longrightarrow> (\<exists>r dv. fst (controller cs st parameters rt) = Inr [Fl r, dv]
               \<and> - 0.9 \<le> r \<and> r \<le> 0.9))
   \<and> (length desired = 2 \<and> desired ! 0 \<noteq> NaN \<longrightarrow>
        (\<exists>r a. lower_controller st' desired parameters' = Inr [Fl r, a]
           \<and> - 0.4 \<le> r \<and> r \<le> 0.4))
   \<and> (length desired = 2 \<and> desired ! 0 = NaN \<longrightarrow>
        (\<exists>a. lower_controller st' desired parameters' = Inr [NaN, a]))"
proof (intro conjI allI impI)
  assume "centerline rt \<noteq> []"
  from controller_char [OF this, of st cs parameters]
  obtain ds tv where "fst (controller cs st parameters rt) = Inr [ds, tv]"
    and "ds = NaN \<or> (\<exists>r. ds = Fl r \<and> - 0.9 \<le> r \<and> r \<le> 0.9)" by force
  then show "\<exists>ds dv. fst (controller cs st parameters rt) = Inr [ds, dv]
         \<and> (ds = NaN \<or> (\<exists>r. ds = Fl r \<and> - 0.9 \<le> r \<and> r \<le> 0.9))"
    by blast
next
  fix ci cte lp li
  assume a: "find_closest_point_on_track (state_x st, state_y st) (centerline rt) h = Inr (ci, cte)
        \<and> find_lookahead_point (state_x st, state_y st) (centerline rt) (int ci)
             (lookahead_distance (state_velocity st) cte) = Inr (lp, li)
        \<and> \<bar>fst lp - state_x st\<bar> \<le> 10 ^ 150 \<and> \<bar>snd lp - state_y st\<bar> \<le> 10 ^ 150
        \<and> cte \<le> 10 ^ 300"
  then have ne: "centerline rt \<noteq> []"
    by (auto simp: find_closest_point_on_track_def np_argmin_def bind_res_def)
  from controller_char [OF ne, of st cs parameters]
  obtain ci' cte' lp' li' ds tv where
    fc: "\<forall>h. find_closest_point_on_track (state_x st, state_y st) (centerline rt) h = Inr (ci', cte')"
    and fl: "find_lookahead_point (state_x st, state_y st) (centerline rt) (int ci')
               (lookahead_distance (state_velocity st) cte') = Inr (lp', li')"
    and pp: "pure_pursuit_steering (state_x st) (state_y st) (state_heading st) lp' cte' = Inr ds"
    and ct: "fst (controller cs st parameters rt) = Inr [ds, tv]"
    by force
  from fc a have e1: "ci' = ci" "cte' = cte" by simp_all
  from fl a e1 have e2: "lp' = lp" by simp
  from a have b: "\<bar>fst lp - state_x st\<bar> \<le> 10 ^ 150" "\<bar>snd lp - state_y st\<bar> \<le> 10 ^ 150"
    "cte \<le> 10 ^ 300" by blast+
  from pure_pursuit_steering_finite [OF b, of "state_heading st"]
  obtain r where "pure_pursuit_steering (state_x st) (state_y st) (state_heading st) lp cte
      = Inr (Fl r)" and r: "- 0.9 \<le> r" "r \<le> 0.9" by blast
  with pp e1 e2 have "ds = Fl r" by simp
  with ct r show "\<exists>r dv. fst (controller cs st parameters rt) = Inr [Fl r, dv]
               \<and> - 0.9 \<le> r \<and> r \<le> 0.9" by blast
next
  assume "length desired = 2 \<and> desired ! 0 \<noteq> NaN"
  with lower_controller_pair [of desired st' parameters']
  show "\<exists>r a. lower_controller st' desired parameters' = Inr [Fl r, a]
           \<and> - 0.4 \<le> r \<and> r \<le> 0.4" by blast
next
  assume "length desired = 2 \<and> desired ! 0 = NaN"
  with lower_controller_pair [of desired st' parameters']
  show "\<exists>a. lower_controller st' desired parameters' = Inr [NaN, a]" by blast
qed

theorem steering_outputs_clamped_witness:
  "centerline straight_track \<noteq> []
   \<and> (\<exists>ds dv. fst (controller controller_state rolling [] straight_track) = Inr [ds, dv]
         \<and> (ds = NaN \<or> (\<exists>r. ds = Fl r \<and> - 0.9 \<le> r \<and> r \<le> 0.9)))
   \<and> find_closest_point_on_track (state_x rolling, state_y rolling) (centerline straight_track)
        (PyInt 0) = Inr (0, 0)
   \<and> find_lookahead_point (state_x rolling, state_y rolling) (centerline straight_track) (int 0)
        (lookahead_distance (state_velocity rolling) 0) = Inr ((8.75, 0), 1)
   \<and> \<bar>fst (8.75 :: real, 0 :: real) - state_x rolling\<bar> \<le> 10 ^ 150
   \<and> \<bar>snd (8.75 :: real, 0 :: real) - state_y rolling\<bar> \<le> 10 ^ 150
   \<and> (0 :: real) \<le> 10 ^ 300
   \<and> (\<exists>r dv. fst (controller controller_state rolling [] straight_track) = Inr [Fl r, dv]
         \<and> - 0.9 \<le> r \<and> r \<le> 0.9)
   \<and> length [Fl 1, Fl 15] = 2 \<and> [Fl 1, Fl 15] ! 0 \<noteq> NaN
   \<and> (\<exists>r a. lower_controller rolling [Fl 1, Fl 15] [] = Inr [Fl r, a]
         \<and> - 0.4 \<le> r \<and> r \<le> 0.4)
   \<and> length [NaN, Fl 15] = 2 \<and> [NaN, Fl 15] ! 0 = NaN
   \<and> (\<exists>a. lower_controller rolling [NaN, Fl 15] [] = Inr [NaN, a])"
proof -
  have h1: "centerline straight_track \<noteq> []" by (simp add: straight_track_def)
  have h2: "find_closest_point_on_track (state_x rolling, state_y rolling)
              (centerline straight_track) (PyInt 0) = Inr (0, 0)"
    by (simp add: rolling_def straight_track_def straight_closest)
  have h3: "find_lookahead_point (state_x rolling, state_y rolling) (centerline straight_track)
              (int 0) (lookahead_distance (state_velocity rolling) 0) = Inr ((8.75, 0), 1)"
    by (simp add: rolling_def straight_track_def lookahead_distance_def np_clip_def Let_def
          straight_lookahead)
  have h4: "\<bar>fst (8.75 :: real, 0 :: real) - state_x rolling\<bar> \<le> 10 ^ 150"
    by (simp add: rolling_def)
  have h5: "\<bar>snd (8.75 :: real, 0 :: real) - state_y rolling\<bar> \<le> 10 ^ 150"
    by (simp add: rolling_def)
  have h6: "(0 :: real) \<le> 10 ^ 300" by simp
  have h7: "length [Fl 1, Fl 15] = 2" "[Fl 1, Fl 15] ! 0 \<noteq> NaN" by simp_all
  have h8: "length [NaN, Fl 15] = 2" "[NaN, Fl 15] ! 0 = NaN" by simp_all
  note t1 = steering_outputs_clamped
    [of straight_track controller_state rolling "[]" "PyInt 0" "[Fl 1, Fl 15]" rolling "[]"]
  note t2 = steering_outputs_clamped
    [of straight_track controller_state rolling "[]" "PyInt 0" "[NaN, Fl 15]" rolling "[]"]
  have e1: "\<exists>ds dv. fst (controller controller_state rolling [] straight_track) = Inr [ds, dv]
         \<and> (ds = NaN \<or> (\<exists>r. ds = Fl r \<and> - 0.9 \<le> r \<and> r \<le> 0.9))"
    by (rule t1 [THEN conjunct1, THEN mp, OF h1])
  have e2: "\<exists>r dv. fst (controller controller_state rolling [] straight_track) = Inr [Fl r, dv]
         \<and> - 0.9 \<le> r \<and> r \<le> 0.9"
    using t1 [THEN conjunct2, THEN conjunct1] h2 h3 h4 h5 h6 by blast
  have e3: "\<exists>r a. lower_controller rolling [Fl 1, Fl 15] [] = Inr [Fl r, a]
         \<and> - 0.4 \<le> r \<and> r \<le> 0.4"
    using t1 [THEN conjunct2, THEN conjunct2, THEN conjunct1] h7 by blast
  have e4: "\<exists>a. lower_controller rolling [NaN, Fl 15] [] = Inr [NaN, a]"
    using t2 [THEN conjunct2, THEN conjunct2, THEN conjunct2] h8 by blast
  show ?thesis by (intro conjI) (rule h1 h2 h3 h4 h5 h6 h7 h8 e1 e2 e3 e4)+
qed

text \<open>
  A car at the finite position (1e308, 1e308), rolling at 5 m/s, and a track of the single
  point (0, 0). In the vehicle frame the lookahead point is at (-1e308, -1e308): the
  squares overflow, so \<open>L\<close> and \<open>L * L\<close> are infinite; \<open>2 * 3.6 * target_y\<close> overflows to
  minus infinity; the quotient of the two infinities is nan, and nan goes through
  \<open>arctan\<close>, the correction and \<open>np.clip\<close>. The controller returns \<open>[nan, 15]\<close>, and the
  lower controller returns the steering rate nan on it. (The distance to the track is
  taken as the finite number it is; in float64 it overflows to infinity, and both are
  above the thresholds 1.5 and 2.0 it is compared with.)
\<close>

theorem steering_nan_counterexample:
  "centerline point_track \<noteq> []
   \<and> fst (controller controller_state far_away [] point_track) = Inr [NaN, Fl 15]
   \<and> length [NaN, Fl 15] = 2
   \<and> lower_controller far_away [NaN, Fl 15] [] = Inr [NaN, Fl 15]
   \<and> fst (tick controller_state far_away [] point_track) = Inr [NaN, Fl 15]"
proof -
  have c1: "centerline point_track \<noteq> []" by (simp add: point_track_def)
  have c2: "fst (controller controller_state far_away [] point_track) = Inr [NaN, Fl 15]"
    by (simp add: controller_far_away)
  have c3: "length [NaN, Fl 15] = 2" by simp
  note c4 = lower_controller_far_away [of "[]"]
  have c5: "fst (tick controller_state far_away [] point_track) = Inr [NaN, Fl 15]"
    by (simp add: tick_def controller_far_away c4)
  show ?thesis by (intro conjI) (rule c1 c2 c3 c4 c5)+
qed

text \<open>
  C9. A \<open>desired\<close> array whose shape is not (2,) makes \<open>lower_controller\<close> fail with
  AssertionError; for every state and every \<open>desired\<close> of shape (2,) it returns a pair
  \<open>[steering_velocity, acceleration]\<close>, so the assertion is its only failure.
\<close>

theorem lower_controller_shape_contract:
  "(length desired \<noteq> 2 \<longrightarrow> lower_controller st desired parameters = Inl AssertionError)
   \<and> (length desired = 2 \<longrightarrow>
        (\<exists>sr a. lower_controller st desired parameters = Inr [sr, a]))"
proof (intro conjI impI)
  assume "length desired \<noteq> 2"
  then show "lower_controller st desired parameters = Inl AssertionError"
    by (simp add: lower_controller_def)
next
  assume "length desired = 2"
  from lower_controller_pair [OF this, of st parameters]
  show "\<exists>sr a. lower_controller st desired parameters = Inr [sr, a]" by blast
qed

theorem lower_controller_shape_contract_witness:
  "length [Fl 1, Fl 15, Fl 0] \<noteq> 2
   \<and> lower_controller rolling [Fl 1, Fl 15, Fl 0] [] = Inl AssertionError
   \<and> length [Fl 1, Fl 15] = 2
   \<and> (\<exists>sr a. lower_controller rolling [Fl 1, Fl 15] [] = Inr [sr, a])"
proof -
  have h1: "length [Fl 1, Fl 15, Fl 0] \<noteq> 2" by simp
  have h2: "length [Fl 1, Fl 15] = 2" by simp
  have e1: "lower_controller rolling [Fl 1, Fl 15, Fl 0] [] = Inl AssertionError"
    by (rule lower_controller_shape_contract [of "[Fl 1, Fl 15, Fl 0]" rolling "[]",
          THEN conjunct1, THEN mp, OF h1])
  have e2: "\<exists>sr a. lower_controller rolling [Fl 1, Fl 15] [] = Inr [sr, a]"
    by (rule lower_controller_shape_contract [of "[Fl 1, Fl 15]" rolling "[]",
          THEN conjunct2, THEN mp, OF h2])
  show ?thesis by (intro conjI) (rule h1 h2 e1 e2)+
qed

text \<open>
  C10. A call of \<open>controller\<close> leaves the dictionary as it was or stores an integer
  under \<open>'last_idx'\<close>, and changes no other key; \<open>lower_controller\<close> has no access to
  the dictionary, so a tick changes it exactly as \<open>controller\<close> does. The results of
  \<open>controller\<close> and of a tick do not depend on the dictionary at all, so no key is
  read to any effect. Over a run of any number of ticks \<open>'velocity_integral'\<close> and
  \<open>'velocity_prev_error'\<close>, like every key but \<open>'last_idx'\<close>, keep their entries.
\<close>

theorem session_state_frame:
  "(snd (controller cs st parameters rt) = cs
      \<or> (\<exists>i. snd (controller cs st parameters rt) = cs(''last_idx'' \<mapsto> PyInt i)))
   \<and> snd (tick cs st parameters rt) = snd (controller cs st parameters rt)
   \<and> fst (controller cs st parameters rt) = fst (controller cs' st parameters rt)
   \<and> fst (tick cs st parameters rt) = fst (tick cs' st parameters rt)
   \<and> run_ticks cs states parameters rt ''velocity_integral'' = cs ''velocity_integral''
   \<and> run_ticks cs states parameters rt ''velocity_prev_error'' = cs ''velocity_prev_error''
   \<and> (\<forall>k. k \<noteq> ''last_idx'' \<longrightarrow> run_ticks cs states parameters rt k = cs k)"
proof -
  have "run_ticks cs states parameters rt ''velocity_integral'' = cs ''velocity_integral''"
    by (rule run_ticks_frame) simp
  moreover
  have "run_ticks cs states parameters rt ''velocity_prev_error'' = cs ''velocity_prev_error''"
    by (rule run_ticks_frame) simp
  moreover have "\<forall>k. k \<noteq> ''last_idx'' \<longrightarrow> run_ticks cs states parameters rt k = cs k"
    by (simp add: run_ticks_frame)
  ultimately show ?thesis
    using controller_snd [of cs st parameters rt] tick_snd [of cs st parameters rt]
      controller_fst_indep [of cs st parameters rt cs'] tick_fst_indep [of cs st parameters rt cs']
    by blast
qed

theorem session_state_frame_witness:
  "''velocity_integral'' \<noteq> ''last_idx''
   \<and> run_ticks controller_state [at_rest, rolling] [] straight_track ''velocity_integral''
       = controller_state ''velocity_integral''
   \<and> run_ticks controller_state [at_rest, rolling] [] straight_track ''velocity_prev_error''
       = controller_state ''velocity_prev_error''
   \<and> controller_state ''velocity_integral'' = Some (PyFloat 0)
   \<and> fst (tick controller_state rolling [] straight_track) = fst (tick Map.empty rolling [] straight_track)"
proof -
  note t = session_state_frame [of controller_state rolling "[]" straight_track Map.empty "[at_rest, rolling]"]
  have h: "''velocity_integral'' \<noteq> ''last_idx''" by simp
  from t have a: "\<forall>k. k \<noteq> ''last_idx'' \<longrightarrow>
      run_ticks controller_state [at_rest, rolling] [] straight_track k = controller_state k"
    by (elim conjE)
  from a h have e1: "run_ticks controller_state [at_rest, rolling] [] straight_track ''velocity_integral''
       = controller_state ''velocity_integral''" by (elim allE impE)
  from t have e2: "run_ticks controller_state [at_rest, rolling] [] straight_track ''velocity_prev_error''
       = controller_state ''velocity_prev_error''" by (elim conjE)
  have e3: "controller_state ''velocity_integral'' = Some (PyFloat 0)"
    by (simp add: controller_state_def)
  from t have e4: "fst (tick controller_state rolling [] straight_track)
      = fst (tick Map.empty rolling [] straight_track)" by (elim conjE)
  show ?thesis by (intro conjI) (rule h e1 e2 e3 e4)+
qed

subsection \<open>Curvature\<close>

lemma powr_three_halves:
  assumes "0 \<le> (x::real)"
  shows "x powr (3 / 2) = x * sqrt x"
proof (cases "x = 0")
  case True
  then show ?thesis by simp
next
  case False
  with assms have pos: "0 < x" by simp
  have "x powr (3 / 2) = x powr (1 + 1 / 2)" by simp
  also have "\<dots> = x powr 1 * x powr (1 / 2)" by (rule powr_add)
  also from pos have "\<dots> = x * sqrt x" by (simp add: powr_half_sqrt)
  finally show ?thesis .
qed







subsection \<open>Target velocity in a tight corner\<close>

lemma sqrt_quarters: "sqrt (9 / 4) = 3 / 2" "sqrt (25 / 4) = 5 / 2" "sqrt (49 / 4) = 7 / 2"
  using real_sqrt_abs [of "3 / 2"] real_sqrt_abs [of "5 / 2"] real_sqrt_abs [of "7 / 2"]
  by (simp_all add: power2_eq_square)

lemma sqrt8_le: "sqrt 8 \<le> 3"
  by (rule real_le_lsqrt) simp_all

lemma corner_closest_off:
  "find_closest_point_on_track (0, - 1.5) [(0, 0), (2, 0), (0, 2)] h = Inr (0, 1.5)"
  by (simp add: find_closest_point_on_track_def np_argmin_def bind_res_def norm2_def psub_def
        Let_def sqrt_quarters power2_eq_square)

lemma corner_closest_on:
  "find_closest_point_on_track (0, 0) [(0, 0), (2, 0), (0, 2)] h = Inr (0, 0)"
  by (simp add: find_closest_point_on_track_def np_argmin_def bind_res_def norm2_def psub_def
        Let_def sqrt4)

lemma corner_lookahead:
  assumes "7 < ld"
  shows "find_lookahead_point pos [(0, 0), (2, 0), (0, 2)] 0 ld = Inr ((0, 0), 0)"
  using assms sqrt8_le
  by (simp add: find_lookahead_point_def find_lookahead_steps_def lookahead_loop.simps
        eval_nat_numeral py_get_def bind_res_def norm2_def psub_def Let_def sqrt4)

lemma corner_curvature: "calculate_curvature [(0, 0), (2, 0), (0, 2)] 0 5 = Inr 1"
proof -
  have d: "chord_denominator (2, 0) (0, 0) (0, 2) = 8"
    by (simp add: chord_denominator_def norm2_def psub_def sqrt4 powr_three_halves)
  have "calculate_curvature [(0, 0), (2, 0), (0, 2)] 0 5 =
          Inr (let p1 = [(0, 0), (2, 0), (0, 2)] ! nat ((0 - 5) mod int (length [(0, 0), (2, 0), (0, 2) :: point]));
                   p2 = [(0, 0), (2, 0), (0, 2)] ! nat (0 mod int (length [(0, 0), (2, 0), (0, 2) :: point]));
                   p3 = [(0, 0), (2, 0), (0, 2)] ! nat ((0 + 5) mod int (length [(0, 0), (2, 0), (0, 2) :: point]))
               in if chord_denominator p1 p2 p3 \<le> 0.000001 then 0
                  else chord_curvature p1 p2 p3)"
    by (rule calculate_curvature_eq) simp_all
  then show ?thesis
    by (simp add: Let_def eval_nat_numeral d chord_curvature_def cross2_def psub_def)
qed

lemma lookahead_distance_off: "lookahead_distance 20 1.5 = 9.9"
  by (simp add: lookahead_distance_def np_clip_def Let_def)

lemma lookahead_distance_on: "lookahead_distance 20 0 = 11"
  by (simp add: lookahead_distance_def np_clip_def Let_def)

text \<open>
  C5, as the code has it. When the curvature at the lookahead index exceeds 0.1, the
  target velocity as it stands before the rate limit is 12 if the cross-track error is
  at most 1 or above 2, and 12 * 0.85 = 10.2 if the cross-track error is above 1 and at
  most 2 (the reduction of lines 181-182); the current velocity has no part in it, and
  the controller returns the rate limit of that value.
\<close>

theorem tight_corner_target_velocity:
  assumes "find_closest_point_on_track (state_x st, state_y st) (centerline rt) h = Inr (ci, cte)"
    and "find_lookahead_point (state_x st, state_y st) (centerline rt) (int ci)
           (lookahead_distance (state_velocity st) cte) = Inr (lp, li)"
    and "calculate_curvature (centerline rt) li 5 = Inr c"
    and "0.1 < c"
  shows "target_velocity_planned (centerline rt) li cte
           = Inr (if 1 < cte \<and> cte \<le> 2 then 12 * 0.85 else 12)
         \<and> (\<exists>ds. fst (controller cs st parameters rt)
               = Inr [ds, Fl (rate_limit (state_velocity st)
                                (if 1 < cte \<and> cte \<le> 2 then 12 * 0.85 else 12))])"
proof -
  have sp: "offtrack_speed cte (base_speed c) = (if 1 < cte \<and> cte \<le> 2 then 12 * 0.85 else 12)"
    using assms(4) by (simp add: offtrack_speed_def base_speed_def)
  have tv: "target_velocity_planned (centerline rt) li cte
           = Inr (if 1 < cte \<and> cte \<le> 2 then 12 * 0.85 else 12)"
    using target_velocity_planned_eq [OF assms(3), of cte] by (simp only: sp)
  have ne: "centerline rt \<noteq> []"
    using assms(1) by (auto simp: find_closest_point_on_track_def np_argmin_def bind_res_def)
  from controller_char [OF ne, of st cs parameters]
  obtain ci' cte' lp' li' ds c' where
    fc: "\<forall>h. find_closest_point_on_track (state_x st, state_y st) (centerline rt) h = Inr (ci', cte')"
    and fl: "find_lookahead_point (state_x st, state_y st) (centerline rt) (int ci')
               (lookahead_distance (state_velocity st) cte') = Inr (lp', li')"
    and cc: "calculate_curvature (centerline rt) li' 5 = Inr c'"
    and ct: "controller cs st parameters rt =
             (Inr [ds, Fl (rate_limit (state_velocity st) (offtrack_speed cte' (base_speed c')))],
              cs(''last_idx'' \<mapsto> PyInt (int ci')))"
    by (elim exE conjE)
  from fc assms(1) have e1: "ci' = ci" "cte' = cte" by simp_all
  from fl assms(2) e1 have e2: "li' = li" by simp
  from cc assms(3) e2 have e3: "c' = c" by simp
  from ct have "fst (controller cs st parameters rt)
      = Inr [ds, Fl (rate_limit (state_velocity st)
                       (if 1 < cte \<and> cte \<le> 2 then 12 * 0.85 else 12))]"
    by (simp only: e1 e3 sp fst_conv)
  with tv show ?thesis by blast
qed

theorem tight_corner_target_velocity_witness:
  "find_closest_point_on_track (state_x on_line, state_y on_line) (centerline corner_track) (PyInt 0)
     = Inr (0, 0)
   \<and> find_lookahead_point (state_x on_line, state_y on_line) (centerline corner_track) (int 0)
        (lookahead_distance (state_velocity on_line) 0) = Inr ((0, 0), 0)
   \<and> calculate_curvature (centerline corner_track) 0 5 = Inr 1
   \<and> (0.1 :: real) < 1
   \<and> target_velocity_planned (centerline corner_track) 0 0 = Inr 12
   \<and> (\<exists>ds. fst (controller controller_state on_line [] corner_track)
          = Inr [ds, Fl (rate_limit (state_velocity on_line) 12)])"
proof -
  have h1: "find_closest_point_on_track (state_x on_line, state_y on_line) (centerline corner_track) (PyInt 0)
     = Inr (0, 0)"
    by (simp add: on_line_def corner_track_def corner_closest_on)
  have h2: "find_lookahead_point (state_x on_line, state_y on_line) (centerline corner_track) (int 0)
        (lookahead_distance (state_velocity on_line) 0) = Inr ((0, 0), 0)"
    by (simp add: on_line_def corner_track_def lookahead_distance_on corner_lookahead)
  have h3: "calculate_curvature (centerline corner_track) 0 5 = Inr 1"
    by (simp add: corner_track_def corner_curvature)
  have h4: "(0.1 :: real) < 1" by simp
  note t = tight_corner_target_velocity [OF h1 h2 h3 h4, of controller_state "[]"]
  from t have c1: "target_velocity_planned (centerline corner_track) 0 0 = Inr 12" by simp
  from t have c2: "\<exists>ds. fst (controller controller_state on_line [] corner_track)
          = Inr [ds, Fl (rate_limit (state_velocity on_line) 12)]" by simp
  show ?thesis by (intro conjI) (rule h1 h2 h3 h4 c1 c2)+
qed

text \<open>
  At the corner of a right-angled three-point track the curvature is 1. A car 1.5 m off
  that corner has the corner as its closest point and as its lookahead index, and the
  target velocity before the rate limit is 10.2, not 12.
\<close>

theorem tight_corner_counterexample:
  "find_closest_point_on_track (state_x off_line, state_y off_line) (centerline corner_track) (PyInt 0)
     = Inr (0, 1.5)
   \<and> find_lookahead_point (state_x off_line, state_y off_line) (centerline corner_track) (int 0)
        (lookahead_distance (state_velocity off_line) 1.5) = Inr ((0, 0), 0)
   \<and> calculate_curvature (centerline corner_track) 0 5 = Inr 1
   \<and> (0.1 :: real) < 1
   \<and> target_velocity_planned (centerline corner_track) 0 1.5 = Inr 10.2
   \<and> (10.2 :: real) \<noteq> 12"
proof -
  have h1: "find_closest_point_on_track (state_x off_line, state_y off_line) (centerline corner_track) (PyInt 0)
     = Inr (0, 1.5)"
    using corner_closest_off [of "PyInt 0"] by (simp add: off_line_def corner_track_def)
  have h2: "find_lookahead_point (state_x off_line, state_y off_line) (centerline corner_track) (int 0)
        (lookahead_distance (state_velocity off_line) 1.5) = Inr ((0, 0), 0)"
    using lookahead_distance_off by (simp add: off_line_def corner_track_def corner_lookahead)
  have h3: "calculate_curvature (centerline corner_track) 0 5 = Inr 1"
    by (simp add: corner_track_def corner_curvature)
  have h4: "(0.1 :: real) < 1" by simp
  have c1: "target_velocity_planned (centerline corner_track) 0 1.5 = Inr 10.2"
    using target_velocity_planned_eq [OF h3, of "1.5"]
    by (simp add: offtrack_speed_def base_speed_def)
  have c2: "(10.2 :: real) \<noteq> 12" by simp
  show ?thesis by (intro conjI) (rule h1 h2 h3 h4 c1 c2)+
qed

end
